theory Spec2Isabelle
  imports Main
begin

section \<open>The task data engine (types.ts, task-service.ts)\<close>

subsection \<open>Data model\<close>

datatype Priority = low | medium | high | critical

datatype TaskStatus = pending | in_progress | completed | overdue

text \<open>
  Instants are milliseconds since the epoch, as \<open>Date.prototype.getTime\<close> gives them.
  The fields \<open>createdAt\<close> and \<open>updatedAt\<close> hold the instant whose ISO rendering
  (\<open>toISOString\<close>) the source stores.  A non-empty \<open>dueDate\<close> string is
  read by the source only through \<open>new Date(task.dueDate)\<close>: it is \<open>DateStr t\<close>
  when that date has time value \<open>t\<close> and \<open>BadDate\<close> when it is an Invalid Date
  (time value NaN, for which every comparison is false).  An absent or empty
  \<open>dueDate\<close> (both falsy) is \<open>None\<close>.

  \<open>types.ts\<close> declares \<open>title\<close> and \<open>status\<close> as present, but the tool handler
  stores \<open>args?.title as string\<close> and \<open>args?.status as TaskStatus\<close> unchecked, so at run
  time either field can hold \<open>undefined\<close>: that is \<open>None\<close> here, and \<open>Some\<close> is a
  value of the declared type.
\<close>

datatype datestring = DateStr int | BadDate

record Task =
  id' :: string
  title :: "string option"
  description :: "string option"
  priority :: Priority
  status :: "TaskStatus option"
  dueDate :: "datestring option"
  tags :: "string list option"
  createdAt :: int
  updatedAt :: int

text \<open>\<open>TasksData\<close>: the persisted document \<open>{tasks, lastUpdated}\<close>.\<close>

record TasksData =
  data_tasks :: "Task list"
  lastUpdated :: int

text \<open>
  The backing file as \<open>loadTasks\<close> sees it: absent (\<open>existsSync\<close> is false),
  present with a content for which the body of the \<open>try\<close> block throws
  (\<open>readFileSync\<close> fails, \<open>JSON.parse\<close> rejects the text, or the parsed value has no
  array of task objects under \<open>tasks\<close>), or present and holding a document.
  Serialisation (\<open>JSON.stringify\<close> and back) is not modelled: the file holds the value written.
\<close>

datatype file_state = Missing | Invalid | Document TasksData

text \<open>
  The environment of the store: the file, whether \<open>writeFileSync\<close> succeeds, the number of
  writes that have succeeded, the number of failures reported with \<open>console.error\<close>, and the
  wall clock.  Every \<open>new Date()\<close> / \<open>Date.now()\<close> of the source is one reading
  of the clock; the \<open>n\<close>-th reading returns \<open>clock n\<close>.
\<close>

record world =
  disk :: file_state
  writable :: bool
  nwrites :: nat
  reported :: nat
  clock :: "nat \<Rightarrow> int"
  nreads :: nat

text \<open>The object state of \<open>TaskService\<close>: its field \<open>tasks\<close> (the path is fixed).\<close>

record TaskService =
  tasks :: "Task list"

text \<open>The exception a failed \<open>writeFileSync\<close> throws.\<close>

datatype exn = WriteError

subsection \<open>Clock and file primitives\<close>

definition newDate :: "world \<Rightarrow> int \<times> world" where
  "newDate w = (clock w (nreads w), w\<lparr>nreads := Suc (nreads w)\<rparr>)"

definition writeFileSync :: "TasksData \<Rightarrow> world \<Rightarrow> (exn + unit) \<times> world" where
  "writeFileSync d w =
     (if writable w then (Inr (), w\<lparr>disk := Document d, nwrites := Suc (nwrites w)\<rparr>)
      else (Inl WriteError, w))"

text \<open>\<open>Number.prototype.toString\<close> on an integer: its decimal numeral.\<close>

fun digitsOf :: "nat \<Rightarrow> string" where
  "digitsOf n =
     (if n < 10 then [''0123456789'' ! n]
      else digitsOf (n div 10) @ [''0123456789'' ! (n mod 10)])"

declare digitsOf.simps [simp del]

definition Number_toString :: "int \<Rightarrow> string" where
  "Number_toString i = (if i < 0 then CHR ''-'' # digitsOf (nat (- i)) else digitsOf (nat i))"

subsection \<open>TaskService\<close>

text \<open>\<open>saveTasks\<close>: one clock reading for \<open>lastUpdated\<close>, then one write of the whole collection.\<close>

definition saveTasks :: "TaskService \<Rightarrow> world \<Rightarrow> (exn + unit) \<times> world" where
  "saveTasks s w =
     (let (t, w1) = newDate w
      in writeFileSync \<lparr>data_tasks = tasks s, lastUpdated = t\<rparr> w1)"

text \<open>
  The condition under which the \<open>forEach\<close> body of \<open>updateOverdueStatus\<close> rewrites a task:
  \<open>task.dueDate && task.status !== 'completed'\<close>, then
  \<open>dueDate < now && task.status !== 'overdue'\<close>.
\<close>

definition becomesOverdue :: "int \<Rightarrow> Task \<Rightarrow> bool" where
  "becomesOverdue now t =
     (case dueDate t of
        None \<Rightarrow> False
      | Some ds \<Rightarrow>
          status t \<noteq> Some completed \<and>
          (case ds of DateStr d \<Rightarrow> d < now | BadDate \<Rightarrow> False) \<and> status t \<noteq> Some overdue)"

text \<open>The \<open>forEach\<close> loop: the tasks after it and the flag \<open>hasChanges\<close>.\<close>

fun overdueLoop :: "int \<Rightarrow> Task list \<Rightarrow> bool \<Rightarrow> Task list \<times> bool" where
  "overdueLoop now [] hasChanges = ([], hasChanges)"
| "overdueLoop now (t # ts) hasChanges =
     (if becomesOverdue now t
      then (let (ts', h) = overdueLoop now ts True
            in (t\<lparr>status := Some overdue, updatedAt := now\<rparr> # ts', h))
      else (let (ts', h) = overdueLoop now ts hasChanges in (t # ts', h)))"

definition updateOverdueStatus ::
  "TaskService \<Rightarrow> world \<Rightarrow> (exn + unit) \<times> TaskService \<times> world" where
  "updateOverdueStatus s w =
     (let (now, w1) = newDate w;
          (ts', hasChanges) = overdueLoop now (tasks s) False;
          s1 = s\<lparr>tasks := ts'\<rparr>
      in if hasChanges
         then (let (r, w2) = saveTasks s1 w1 in (r, s1, w2))
         else (Inr (), s1, w1))"

text \<open>
  \<open>createSampleTasks\<close>.  The Cyrillic literals of the source are transliterated.
\<close>

definition day_ms :: int where
  "day_ms = 24 * 60 * 60 * 1000"

definition sampleTasks :: "int \<Rightarrow> Task list" where
  "sampleTasks now =
     (let tomorrow = now + day_ms; nextWeek = now + 7 * day_ms; yesterday = now - day_ms in
      [\<lparr>id' = ''1'', title = Some ''Podgotovit otchyot po proektu'',
         description = Some ''Kvartalnyi otchyot dlya rukovodstva'',
         priority = high, status = Some in_progress, dueDate = Some (DateStr tomorrow),
         tags = Some [''rabota'', ''otchyot''], createdAt = now, updatedAt = now\<rparr>,
       \<lparr>id' = ''2'', title = Some ''Sozvon s komandoi'',
         description = Some ''Ezhenedelnyi status-miting'',
         priority = medium, status = Some pending, dueDate = Some (DateStr tomorrow),
         tags = Some [''rabota'', ''miting''], createdAt = now, updatedAt = now\<rparr>,
       \<lparr>id' = ''3'', title = Some ''Oplatit scheta'',
         description = Some ''Kommunalnye platezhi'',
         priority = high, status = Some pending, dueDate = Some (DateStr yesterday),
         tags = Some [''lichnoe'', ''finansy''], createdAt = now, updatedAt = now\<rparr>,
       \<lparr>id' = ''4'', title = Some ''Izuchit novyi freimvork'',
         description = Some ''Posmotret dokumentatsiyu Angular 17'',
         priority = low, status = Some pending, dueDate = Some (DateStr nextWeek),
         tags = Some [''obuchenie'', ''angular''], createdAt = now, updatedAt = now\<rparr>,
       \<lparr>id' = ''5'', title = Some ''Code review'',
         description = Some ''Proverit PR ot kollegi'',
         priority = critical, status = Some pending, dueDate = Some (DateStr now),
         tags = Some [''rabota'', ''kod''], createdAt = now, updatedAt = now\<rparr>])"

definition createSampleTasks ::
  "TaskService \<Rightarrow> world \<Rightarrow> (exn + unit) \<times> TaskService \<times> world" where
  "createSampleTasks s w =
     (let (now, w1) = newDate w;
          (r, w2) = writeFileSync \<lparr>data_tasks = sampleTasks now, lastUpdated = now\<rparr> w1
      in case r of
           Inl e \<Rightarrow> (Inl e, s, w2)
         | Inr _ \<Rightarrow> (Inr (), s\<lparr>tasks := sampleTasks now\<rparr>, w2))"

text \<open>
  The \<open>catch\<close> block of \<open>loadTasks\<close>: report with \<open>console.error\<close>, empty the collection.
\<close>

definition loadFailed :: "TaskService \<Rightarrow> world \<Rightarrow> (exn + unit) \<times> TaskService \<times> world" where
  "loadFailed s w = (Inr (), s\<lparr>tasks := []\<rparr>, w\<lparr>reported := Suc (reported w)\<rparr>)"

text \<open>The \<open>try\<close> block of \<open>loadTasks\<close> with its \<open>catch\<close>.\<close>

definition readAndDerive ::
  "TaskService \<Rightarrow> world \<Rightarrow> (exn + unit) \<times> TaskService \<times> world" where
  "readAndDerive s w =
     (case disk w of
        Document d \<Rightarrow>
          (case updateOverdueStatus (s\<lparr>tasks := data_tasks d\<rparr>) w of
             (Inr u, s1, w1) \<Rightarrow> (Inr u, s1, w1)
           | (Inl e, s1, w1) \<Rightarrow> loadFailed s1 w1)
      | Invalid \<Rightarrow> loadFailed s w
      | Missing \<Rightarrow> loadFailed s w)"

definition loadTasks :: "TaskService \<Rightarrow> world \<Rightarrow> (exn + unit) \<times> TaskService \<times> world" where
  "loadTasks s w =
     (if disk w = Missing
      then (case createSampleTasks s w of
              (Inl e, s1, w1) \<Rightarrow> (Inl e, s1, w1)
            | (Inr _, s1, w1) \<Rightarrow> readAndDerive s1 w1)
      else readAndDerive s w)"

definition reloadTasks :: "TaskService \<Rightarrow> world \<Rightarrow> (exn + unit) \<times> TaskService \<times> world" where
  "reloadTasks s w = loadTasks s w"

text \<open>
  \<open>Array.prototype.find\<close> and \<open>findIndex\<close> with the predicate \<open>t.id === id\<close>.
  The id argument is typed \<open>string\<close> in the source, but the tool handler passes
  \<open>args?.id as string\<close> unchecked, which is \<open>undefined\<close> when the call carries no id:
  the argument is \<open>Some i\<close> for the string \<open>i\<close> and \<open>None\<close> for \<open>undefined\<close>, which is
  \<open>===\<close> to no task id.
\<close>

fun findIndexById :: "string option \<Rightarrow> Task list \<Rightarrow> nat option" where
  "findIndexById i [] = None"
| "findIndexById i (t # ts) =
     (if Some (id' t) = i then Some 0 else map_option Suc (findIndexById i ts))"

definition findById :: "string option \<Rightarrow> Task list \<Rightarrow> Task option" where
  "findById i ts = find (\<lambda>t. Some (id' t) = i) ts"

text \<open>\<open>splice(index, 1)\<close>.\<close>

definition splice1 :: "nat \<Rightarrow> 'a list \<Rightarrow> 'a list" where
  "splice1 k xs = take k xs @ drop (Suc k) xs"

text \<open>
  \<open>addTask\<close>: the argument carries every field but \<open>id\<close>, \<open>createdAt\<close> and
  \<open>updatedAt\<close> (their values in the argument record are overwritten).  Two clock readings:
  \<open>new Date()\<close> for the timestamps, \<open>Date.now()\<close> for the id.  The task is pushed before
  \<open>saveTasks\<close> runs, so it stays in memory when the write throws.
\<close>

definition addTask :: "Task \<Rightarrow> TaskService \<Rightarrow> world \<Rightarrow> (exn + Task) \<times> TaskService \<times> world" where
  "addTask task s w =
     (let (now, w1) = newDate w;
          (idnow, w2) = newDate w1;
          newTask = task\<lparr>id' := Number_toString idnow, createdAt := now, updatedAt := now\<rparr>;
          s1 = s\<lparr>tasks := tasks s @ [newTask]\<rparr>;
          (r, w3) = saveTasks s1 w2
      in case r of Inl e \<Rightarrow> (Inl e, s1, w3) | Inr _ \<Rightarrow> (Inr newTask, s1, w3))"

text \<open>
  \<open>updateTaskStatus\<close>: the first task with the id is mutated in place; the result \<open>None\<close>
  is the source's \<open>null\<close>.  The status argument is what the caller passes: the handler
  passes \<open>args?.status as TaskStatus\<close>, which is \<open>undefined\<close> (\<open>None\<close>) when the call
  carries no status, and the source assigns it as it comes.
\<close>

definition updateTaskStatus ::
  "string option \<Rightarrow> TaskStatus option \<Rightarrow> TaskService \<Rightarrow> world \<Rightarrow>
     (exn + Task option) \<times> TaskService \<times> world" where
  "updateTaskStatus i st s w =
     (case findIndexById i (tasks s) of
        None \<Rightarrow> (Inr None, s, w)
      | Some k \<Rightarrow>
          (let (now, w1) = newDate w;
               task = (tasks s ! k)\<lparr>status := st, updatedAt := now\<rparr>;
               s1 = s\<lparr>tasks := (tasks s)[k := task]\<rparr>;
               (r, w2) = saveTasks s1 w1
           in case r of Inl e \<Rightarrow> (Inl e, s1, w2) | Inr _ \<Rightarrow> (Inr (Some task), s1, w2)))"

definition deleteTask ::
  "string option \<Rightarrow> TaskService \<Rightarrow> world \<Rightarrow> (exn + bool) \<times> TaskService \<times> world" where
  "deleteTask i s w =
     (case findIndexById i (tasks s) of
        None \<Rightarrow> (Inr False, s, w)
      | Some k \<Rightarrow>
          (let s1 = s\<lparr>tasks := splice1 k (tasks s)\<rparr>;
               (r, w1) = saveTasks s1 w
           in case r of Inl e \<Rightarrow> (Inl e, s1, w1) | Inr _ \<Rightarrow> (Inr True, s1, w1)))"

subsection \<open>Read operations\<close>

text \<open>Every read reloads first; an exception of the reload (the bootstrap write) propagates.\<close>

definition getAllTasks ::
  "TaskService \<Rightarrow> world \<Rightarrow> (exn + Task list) \<times> TaskService \<times> world" where
  "getAllTasks s w =
     (case reloadTasks s w of
        (Inl e, s1, w1) \<Rightarrow> (Inl e, s1, w1)
      | (Inr _, s1, w1) \<Rightarrow> (Inr (tasks s1), s1, w1))"

definition getTaskById ::
  "string option \<Rightarrow> TaskService \<Rightarrow> world \<Rightarrow> (exn + Task option) \<times> TaskService \<times> world" where
  "getTaskById i s w =
     (case reloadTasks s w of
        (Inl e, s1, w1) \<Rightarrow> (Inl e, s1, w1)
      | (Inr _, s1, w1) \<Rightarrow> (Inr (findById i (tasks s1)), s1, w1))"

text \<open>
  \<open>TaskFilter\<close>.  A field is applied when it is truthy: a status or a priority when present,
  a tag or a date bound when it is a non-empty string.  The date bounds are read through
  \<open>new Date\<close>, like \<open>dueDate\<close>.
\<close>

record TaskFilter =
  f_status :: "TaskStatus option"
  f_priority :: "Priority option"
  f_tag :: "string option"
  dueBefore :: "datestring option"
  dueAfter :: "datestring option"

text \<open>Comparison of two \<open>Date\<close> objects: false as soon as one of them is invalid.\<close>

fun dateLe :: "datestring \<Rightarrow> datestring \<Rightarrow> bool" where
  "dateLe (DateStr a) (DateStr b) = (a \<le> b)"
| "dateLe _ _ = False"

definition applyFilter :: "TaskFilter \<Rightarrow> Task list \<Rightarrow> Task list" where
  "applyFilter f ts =
     (let r1 = (case f_status f of None \<Rightarrow> ts | Some st \<Rightarrow> filter (\<lambda>t. status t = Some st) ts);
          r2 = (case f_priority f of None \<Rightarrow> r1 | Some p \<Rightarrow> filter (\<lambda>t. priority t = p) r1);
          r3 = (case f_tag f of
                  None \<Rightarrow> r2
                | Some g \<Rightarrow>
                    if g = [] then r2
                    else filter (\<lambda>t. case tags t of None \<Rightarrow> False | Some gs \<Rightarrow> g \<in> set gs) r2);
          r4 = (case dueBefore f of
                  None \<Rightarrow> r3
                | Some b \<Rightarrow>
                    filter (\<lambda>t. case dueDate t of None \<Rightarrow> False | Some d \<Rightarrow> dateLe d b) r3)
      in case dueAfter f of
           None \<Rightarrow> r4
         | Some a \<Rightarrow> filter (\<lambda>t. case dueDate t of None \<Rightarrow> False | Some d \<Rightarrow> dateLe a d) r4)"

definition getTasks ::
  "TaskFilter option \<Rightarrow> TaskService \<Rightarrow> world \<Rightarrow> (exn + Task list) \<times> TaskService \<times> world" where
  "getTasks filt s w =
     (case reloadTasks s w of
        (Inl e, s1, w1) \<Rightarrow> (Inl e, s1, w1)
      | (Inr _, s1, w1) \<Rightarrow>
          (Inr (case filt of None \<Rightarrow> tasks s1 | Some f \<Rightarrow> applyFilter f (tasks s1)), s1, w1))"

subsection \<open>Summary\<close>

text \<open>
  \<open>Record<TaskStatus, number>\<close> and \<open>Record<Priority, number>\<close> are total tables over the
  four keys; the object literals of \<open>getSummary\<close> start each of them at zero.  For a task
  whose status is \<open>undefined\<close>, \<open>summary.byStatus[task.status]++\<close> leaves the four keys as
  they are and gives the table the further key \<open>undefined\<close>, holding NaN:
  \<open>byStatusNaN\<close> says that this key is there.
\<close>

record TaskSummary =
  total :: nat
  byStatus :: "TaskStatus \<Rightarrow> nat"
  byStatusNaN :: bool
  byPriority :: "Priority \<Rightarrow> nat"
  overdueTasks :: "Task list"
  upcomingTasks :: "Task list"
  todayTasks :: "Task list"

text \<open>\<open>dueDate >= lo && dueDate < hi\<close> and \<open>dueDate >= lo && dueDate <= hi\<close> on a \<open>Date\<close>.\<close>

definition dueWithin :: "datestring \<Rightarrow> int \<Rightarrow> int \<Rightarrow> bool" where
  "dueWithin ds lo hi = (case ds of DateStr d \<Rightarrow> lo \<le> d \<and> d < hi | BadDate \<Rightarrow> False)"

definition dueWithinIncl :: "datestring \<Rightarrow> int \<Rightarrow> int \<Rightarrow> bool" where
  "dueWithinIncl ds lo hi = (case ds of DateStr d \<Rightarrow> lo \<le> d \<and> d \<le> hi | BadDate \<Rightarrow> False)"

text \<open>The body of the \<open>forEach\<close> of \<open>getSummary\<close>, and the loop.\<close>

definition summaryStep :: "int \<Rightarrow> int \<Rightarrow> int \<Rightarrow> int \<Rightarrow> Task \<Rightarrow> TaskSummary \<Rightarrow> TaskSummary" where
  "summaryStep now tomorrow todayStart todayEnd t sm =
     (let sm1 = (case status t of
                   Some st \<Rightarrow> sm\<lparr>byStatus := (byStatus sm)(st := Suc (byStatus sm st))\<rparr>
                 | None \<Rightarrow> sm\<lparr>byStatusNaN := True\<rparr>);
          sm2 = sm1\<lparr>byPriority := (byPriority sm1)(priority t := Suc (byPriority sm1 (priority t)))\<rparr>;
          sm3 = (if status t = Some overdue then sm2\<lparr>overdueTasks := overdueTasks sm2 @ [t]\<rparr> else sm2)
      in case dueDate t of
           None \<Rightarrow> sm3
         | Some ds \<Rightarrow>
             (let sm4 = (if dueWithin ds todayStart todayEnd \<and> status t \<noteq> Some completed
                         then sm3\<lparr>todayTasks := todayTasks sm3 @ [t]\<rparr> else sm3)
              in if dueWithinIncl ds now tomorrow \<and> status t \<noteq> Some completed
                 then sm4\<lparr>upcomingTasks := upcomingTasks sm4 @ [t]\<rparr> else sm4))"

fun summaryLoop :: "int \<Rightarrow> int \<Rightarrow> int \<Rightarrow> int \<Rightarrow> Task list \<Rightarrow> TaskSummary \<Rightarrow> TaskSummary" where
  "summaryLoop now tomorrow todayStart todayEnd [] sm = sm"
| "summaryLoop now tomorrow todayStart todayEnd (t # ts) sm =
     summaryLoop now tomorrow todayStart todayEnd ts
       (summaryStep now tomorrow todayStart todayEnd t sm)"

text \<open>
  \<open>getSummary\<close>.  The parameter \<open>localMidnight\<close> is the time zone of the process: it maps an
  instant to the instant of \<open>new Date(y, m, d)\<close> for the local year, month and day of that
  instant.
\<close>

definition getSummary ::
  "(int \<Rightarrow> int) \<Rightarrow> TaskService \<Rightarrow> world \<Rightarrow> (exn + TaskSummary) \<times> TaskService \<times> world" where
  "getSummary localMidnight s w =
     (case reloadTasks s w of
        (Inl e, s1, w1) \<Rightarrow> (Inl e, s1, w1)
      | (Inr _, s1, w1) \<Rightarrow>
          (let (now, w2) = newDate w1;
               tomorrow = now + day_ms;
               todayStart = localMidnight now;
               todayEnd = todayStart + day_ms;
               summary = \<lparr>total = length (tasks s1),
                          byStatus = (\<lambda>_. 0), byStatusNaN = False, byPriority = (\<lambda>_. 0),
                          overdueTasks = [], upcomingTasks = [], todayTasks = []\<rparr>
           in (Inr (summaryLoop now tomorrow todayStart todayEnd (tasks s1) summary), s1, w2)))"

section \<open>The tool handler (mcp-server.ts)\<close>

text \<open>
  The arguments mapping of a \<open>tools/call\<close> request, read field by field as the handler does
  (\<open>args?.field\<close>): a field is \<open>None\<close> when the mapping is absent or does not carry it, and
  holds a value of the type the handler casts it to otherwise.
\<close>

record tool_args =
  arg_id :: "string option"
  arg_title :: "string option"
  arg_description :: "string option"
  arg_priority :: "Priority option"
  arg_status :: "TaskStatus option"
  arg_dueDate :: "datestring option"
  arg_tags :: "string list option"
  arg_tag :: "string option"

text \<open>
  The text of a tool result.  \<open>JSON.stringify\<close> is not modelled: a payload names the template
  of the source and the value it renders.
\<close>

datatype payload =
    TasksJson "Task list"
  | SummaryJson TaskSummary
  | TaskJson Task
  | NotFoundText
  | CreatedText Task
  | StatusUpdatedText Task
  | DeletedText
  | UnknownToolText string
  | ErrorText exn

record tool_result =
  content :: payload
  isError :: bool

text \<open>
  What a call of the handler returns: the tool result, with the store and the environment
  after the call.  Every exception raised inside the handler's \<open>try\<close> is turned into a tool
  result by its \<open>catch\<close>, so there is no other way for a call to end.
\<close>

datatype call_outcome = Returned tool_result TaskService world

definition okResult :: "payload \<Rightarrow> tool_result" where
  "okResult p = \<lparr>content = p, isError = False\<rparr>"

definition errorResult :: "payload \<Rightarrow> tool_result" where
  "errorResult p = \<lparr>content = p, isError = True\<rparr>"

text \<open>The \<open>catch\<close> block of the handler.\<close>

definition caught :: "exn \<Rightarrow> TaskService \<Rightarrow> world \<Rightarrow> call_outcome" where
  "caught e s w = Returned (errorResult (ErrorText e)) s w"

definition callTool ::
  "(int \<Rightarrow> int) \<Rightarrow> string \<Rightarrow> tool_args \<Rightarrow> TaskService \<Rightarrow> world \<Rightarrow> call_outcome" where
  "callTool localMidnight name args s w =
     (if name = ''get_tasks'' then
        (let filt = \<lparr>f_status = arg_status args, f_priority = arg_priority args,
                     f_tag = (case arg_tag args of
                                None \<Rightarrow> None
                              | Some g \<Rightarrow> if g = [] then None else Some g),
                     dueBefore = None, dueAfter = None\<rparr>
         in case getTasks (Some filt) s w of
              (Inl e, s1, w1) \<Rightarrow> caught e s1 w1
            | (Inr ts, s1, w1) \<Rightarrow> Returned (okResult (TasksJson ts)) s1 w1)
      else if name = ''get_task_summary'' then
        (case getSummary localMidnight s w of
           (Inl e, s1, w1) \<Rightarrow> caught e s1 w1
         | (Inr sm, s1, w1) \<Rightarrow> Returned (okResult (SummaryJson sm)) s1 w1)
      else if name = ''get_task_by_id'' then
        (case getTaskById (arg_id args) s w of
           (Inl e, s1, w1) \<Rightarrow> caught e s1 w1
         | (Inr None, s1, w1) \<Rightarrow> Returned (errorResult NotFoundText) s1 w1
         | (Inr (Some t), s1, w1) \<Rightarrow> Returned (okResult (TaskJson t)) s1 w1)
      else if name = ''add_task'' then
        (case addTask
                \<lparr>id' = [], title = arg_title args, description = arg_description args,
                 priority = (case arg_priority args of None \<Rightarrow> medium | Some p \<Rightarrow> p),
                 status = Some pending, dueDate = arg_dueDate args, tags = arg_tags args,
                 createdAt = 0, updatedAt = 0\<rparr> s w of
           (Inl e, s1, w1) \<Rightarrow> caught e s1 w1
         | (Inr newTask, s1, w1) \<Rightarrow> Returned (okResult (CreatedText newTask)) s1 w1)
      else if name = ''update_task_status'' then
        (case updateTaskStatus (arg_id args) (arg_status args) s w of
           (Inl e, s1, w1) \<Rightarrow> caught e s1 w1
         | (Inr None, s1, w1) \<Rightarrow> Returned (errorResult NotFoundText) s1 w1
         | (Inr (Some t), s1, w1) \<Rightarrow> Returned (okResult (StatusUpdatedText t)) s1 w1)
      else if name = ''delete_task'' then
        (case deleteTask (arg_id args) s w of
           (Inl e, s1, w1) \<Rightarrow> caught e s1 w1
         | (Inr deleted, s1, w1) \<Rightarrow>
             Returned \<lparr>content = (if deleted then DeletedText else NotFoundText),
                       isError = \<not> deleted\<rparr> s1 w1)
      else if name = ''get_overdue_tasks'' then
        (case getSummary localMidnight s w of
           (Inl e, s1, w1) \<Rightarrow> caught e s1 w1
         | (Inr sm, s1, w1) \<Rightarrow> Returned (okResult (TasksJson (overdueTasks sm))) s1 w1)
      else if name = ''get_today_tasks'' then
        (case getSummary localMidnight s w of
           (Inl e, s1, w1) \<Rightarrow> caught e s1 w1
         | (Inr sm, s1, w1) \<Rightarrow> Returned (okResult (TasksJson (todayTasks sm))) s1 w1)
      else Returned (errorResult (UnknownToolText name)) s w)"

text \<open>The names of the eight cases of the handler's \<open>switch\<close>.\<close>

definition toolNames :: "string list" where
  "toolNames = [''get_tasks'', ''get_task_summary'', ''get_task_by_id'', ''add_task'',
                ''update_task_status'', ''delete_task'', ''get_overdue_tasks'', ''get_today_tasks'']"

section \<open>The stdio JSON-RPC client (agent.ts, class MCPClient)\<close>

subsection \<open>Values and messages\<close>

text \<open>
  The values \<open>JSON.parse\<close> returns.  An object is the list of its own properties.
  Strings are lists of code units; numbers are the integers (a request id of the client is one).
\<close>

datatype json =
    JNull
  | JBool bool
  | JNum int
  | JStr string
  | JArr "json list"
  | JObj "(string \<times> json) list"

text \<open>
  Reading one of the properties \<open>id\<close>, \<open>error\<close>, \<open>result\<close>, \<open>message\<close> of a value that is
  not \<open>null\<close>: the property of an object, \<open>undefined\<close> (\<open>None\<close>) for an object without it and
  for a boolean, a number, a string or an array.  (On \<open>null\<close> the access throws a TypeError;
  \<open>handleLine\<close> treats that case before it reads a property.)
\<close>

fun getProp :: "json \<Rightarrow> string \<Rightarrow> json option" where
  "getProp (JObj kvs) k = map_of kvs k"
| "getProp _ k = None"

text \<open>Truthiness of a value that may be \<open>undefined\<close>.\<close>

fun truthy :: "json option \<Rightarrow> bool" where
  "truthy None = False"
| "truthy (Some JNull) = False"
| "truthy (Some (JBool b)) = b"
| "truthy (Some (JNum n)) = (n \<noteq> 0)"
| "truthy (Some (JStr s)) = (s \<noteq> [])"
| "truthy (Some (JArr _)) = True"
| "truthy (Some (JObj _)) = True"

text \<open>The request object \<open>{jsonrpc: '2.0', id, method, params}\<close>.\<close>

record request =
  req_id :: nat
  req_method :: string
  req_params :: "json option"

text \<open>
  The argument of \<open>new Error(...)\<close> in the three rejections of the source:
  \<open>message.error.message\<close> when it is truthy, \<open>JSON.stringify(message.error)\<close> otherwise,
  and \<open>Request timeout for method: <method>\<close>.
\<close>

datatype error_text =
    RemoteMessage json
  | RemoteStringified json
  | RequestTimeout string

text \<open>
  What the client does to the outside, in order: lines of the console log, lines written to
  the standard input of the subprocess, and calls of the \<open>resolve\<close> / \<open>reject\<close> of a
  promise.  A promise is named by the request id allocated in the call of \<open>sendRequest\<close> that
  created it.
\<close>

datatype effect =
    LogRequest string
  | LogResponse json
  | LogParseError string
  | StdinWrite request
  | Resolve nat "json option"
  | Reject nat error_text

text \<open>
  The fields of \<open>MCPClient\<close>.  \<open>connected\<close> says that \<open>serverProcess\<close> (with its \<open>stdin\<close>)
  is there.  \<open>pendingRequests\<close> maps a request id to the pair \<open>{resolve, reject}\<close> stored
  under it, given by the promise the pair belongs to.
\<close>

record MCPClient =
  connected :: bool
  messageId :: nat
  pendingRequests :: "nat \<rightharpoonup> nat"
  buffer :: string

text \<open>
  The event loop around the client: the timers \<open>sendRequest\<close> has armed with \<open>setTimeout\<close>
  and that have not fired yet (each with the \<open>id\<close> and the \<open>method\<close> its closure captured;
  its \<open>reject\<close> is that of the promise \<open>id\<close>), and the effects so far.
\<close>

record runtime =
  timers :: "(nat \<times> string) list"
  effects :: "effect list"

subsection \<open>Framing\<close>

text \<open>\<open>String.prototype.split('\n')\<close>: the pieces between the newlines, never an empty list.\<close>

definition newline :: char where
  "newline = CHR 0x0A"

fun splitLines :: "string \<Rightarrow> string list" where
  "splitLines [] = [[]]"
| "splitLines (c # cs) =
     (if c = newline then [] # splitLines cs
      else (case splitLines cs of
              [] \<Rightarrow> [[c]]
            | l # ls \<Rightarrow> (c # l) # ls))"

text \<open>
  \<open>line.trim()\<close> is truthy when the line has a code unit that is not white space or a line
  terminator.  Of those, the code units below 256 are tab, line feed, vertical tab, form feed,
  carriage return, space and no-break space.
\<close>

definition isWhiteSpace :: "char \<Rightarrow> bool" where
  "isWhiteSpace c = (c \<in> set [CHR 0x09, CHR 0x0A, CHR 0x0B, CHR 0x0C, CHR 0x0D, CHR 0x20, CHR 0xA0])"

definition trimmedNonEmpty :: "string \<Rightarrow> bool" where
  "trimmedNonEmpty line = (\<not> list_all isWhiteSpace line)"

subsection \<open>Dispatch of one line\<close>

text \<open>
  \<open>message.id !== undefined && this.pendingRequests.has(message.id)\<close>, and the entry
  \<open>get\<close> returns then: the key and the stored pair.
\<close>

definition pendingEntry :: "MCPClient \<Rightarrow> json option \<Rightarrow> (nat \<times> nat) option" where
  "pendingEntry c idv =
     (case idv of
        Some (JNum n) \<Rightarrow>
          (if 0 \<le> n then map_option (\<lambda>p. (nat n, p)) (pendingRequests c (nat n)) else None)
      | _ \<Rightarrow> None)"

text \<open>The call of \<open>reject\<close> or \<open>resolve\<close> for a message whose entry was found.\<close>

definition settle :: "nat \<Rightarrow> json \<Rightarrow> effect" where
  "settle p message =
     (if truthy (getProp message ''error'')
      then (case getProp message ''error'' of
              Some err \<Rightarrow>
                (if truthy (getProp err ''message'')
                 then (case getProp err ''message'' of
                         Some m \<Rightarrow> Reject p (RemoteMessage m)
                       | None \<Rightarrow> Reject p (RemoteStringified err))
                 else Reject p (RemoteStringified err))
            | None \<Rightarrow> Resolve p (getProp message ''result''))
      else Resolve p (getProp message ''result''))"

text \<open>
  The body of the \<open>for\<close> loop of \<open>processBuffer\<close> for a line with \<open>line.trim()\<close> truthy.
  The parameter \<open>parse\<close> is \<open>JSON.parse\<close>: \<open>None\<close> where it throws.  The \<open>catch\<close> block
  logs the line; it is entered when \<open>JSON.parse\<close> throws and when the parsed value is
  \<open>null\<close>, on which \<open>message.id\<close> throws after the response was logged.
\<close>

definition handleLine ::
  "(string \<Rightarrow> json option) \<Rightarrow> string \<Rightarrow> MCPClient \<times> runtime \<Rightarrow> MCPClient \<times> runtime" where
  "handleLine parse line cr =
     (let (c, r) = cr in
      case parse line of
        None \<Rightarrow> (c, r\<lparr>effects := effects r @ [LogParseError line]\<rparr>)
      | Some message \<Rightarrow>
          (let r1 = r\<lparr>effects := effects r @ [LogResponse message]\<rparr> in
           if message = JNull then (c, r1\<lparr>effects := effects r1 @ [LogParseError line]\<rparr>)
           else (case pendingEntry c (getProp message ''id'') of
                   None \<Rightarrow> (c, r1)
                 | Some (k, p) \<Rightarrow>
                     (c\<lparr>pendingRequests := (pendingRequests c)(k := None)\<rparr>,
                      r1\<lparr>effects := effects r1 @ [settle p message]\<rparr>))))"

text \<open>The \<open>for\<close> loop over the complete lines.\<close>

fun handleLines ::
  "(string \<Rightarrow> json option) \<Rightarrow> string list \<Rightarrow> MCPClient \<times> runtime \<Rightarrow> MCPClient \<times> runtime" where
  "handleLines parse [] cr = cr"
| "handleLines parse (line # ls) cr =
     handleLines parse ls (if trimmedNonEmpty line then handleLine parse line cr else cr)"

text \<open>
  \<open>processBuffer\<close>: \<open>lines.pop() || ''\<close> keeps the piece after the last newline as the new
  buffer; the pieces before it are the complete lines.
\<close>

definition processBuffer ::
  "(string \<Rightarrow> json option) \<Rightarrow> MCPClient \<times> runtime \<Rightarrow> MCPClient \<times> runtime" where
  "processBuffer parse cr =
     (let (c, r) = cr;
          lines = splitLines (buffer c)
      in handleLines parse (butlast lines) (c\<lparr>buffer := last lines\<rparr>, r))"

text \<open>The \<open>data\<close> listener on the standard output of the subprocess, for the text of one chunk.\<close>

definition onData ::
  "(string \<Rightarrow> json option) \<Rightarrow> string \<Rightarrow> MCPClient \<times> runtime \<Rightarrow> MCPClient \<times> runtime" where
  "onData parse chunk cr =
     (let (c, r) = cr in processBuffer parse (c\<lparr>buffer := buffer c @ chunk\<rparr>, r))"

subsection \<open>Requests and timeouts\<close>

text \<open>
  The executor of the promise \<open>sendRequest\<close> returns: a new id, the entry, the log line, the
  write (when the subprocess is there), the timer.
\<close>

definition sendRequest ::
  "string \<Rightarrow> json option \<Rightarrow> MCPClient \<times> runtime \<Rightarrow> MCPClient \<times> runtime" where
  "sendRequest method params cr =
     (let (c, r) = cr;
          i = Suc (messageId c);
          req = \<lparr>req_id = i, req_method = method, req_params = params\<rparr>;
          c1 = c\<lparr>messageId := i, pendingRequests := (pendingRequests c)(i \<mapsto> i)\<rparr>
      in (c1, r\<lparr>timers := timers r @ [(i, method)],
                effects := effects r @ [LogRequest method] @
                           (if connected c then [StdinWrite req] else [])\<rparr>))"

text \<open>
  The callback of \<open>setTimeout\<close> for the timer at position \<open>k\<close> of the armed timers.  A timer
  fires once: it leaves the list.
\<close>

definition fireTimer :: "nat \<Rightarrow> MCPClient \<times> runtime \<Rightarrow> MCPClient \<times> runtime" where
  "fireTimer k cr =
     (let (c, r) = cr in
      if k < length (timers r)
      then (let (i, method) = timers r ! k;
                r1 = r\<lparr>timers := take k (timers r) @ drop (Suc k) (timers r)\<rparr>
            in if pendingRequests c i \<noteq> None
               then (c\<lparr>pendingRequests := (pendingRequests c)(i := None)\<rparr>,
                     r1\<lparr>effects := effects r1 @ [Reject i (RequestTimeout method)]\<rparr>)
               else (c, r1))
      else cr)"

text \<open>
  What can happen to a client: a call of \<open>sendRequest\<close>, a chunk on the standard output of the
  subprocess, an armed timer that fires.
\<close>

datatype event = Send string "json option" | Data string | Fire nat

fun step :: "(string \<Rightarrow> json option) \<Rightarrow> event \<Rightarrow> MCPClient \<times> runtime \<Rightarrow> MCPClient \<times> runtime" where
  "step parse (Send method params) cr = sendRequest method params cr"
| "step parse (Data chunk) cr = onData parse chunk cr"
| "step parse (Fire k) cr = fireTimer k cr"

fun run :: "(string \<Rightarrow> json option) \<Rightarrow> event list \<Rightarrow> MCPClient \<times> runtime \<Rightarrow> MCPClient \<times> runtime" where
  "run parse [] cr = cr"
| "run parse (e # es) cr = run parse es (step parse e cr)"

text \<open>A new client, with or without its subprocess.\<close>

definition newClient :: "bool \<Rightarrow> MCPClient \<times> runtime" where
  "newClient conn =
     (\<lparr>connected = conn, messageId = 0, pendingRequests = Map.empty, buffer = []\<rparr>,
      \<lparr>timers = [], effects = []\<rparr>)"

text \<open>The terminal outcomes delivered to the promise of a request id, in order.\<close>

fun outcomeOf :: "nat \<Rightarrow> effect \<Rightarrow> bool" where
  "outcomeOf i (Resolve p v) = (p = i)"
| "outcomeOf i (Reject p e) = (p = i)"
| "outcomeOf i _ = False"

definition outcomes :: "nat \<Rightarrow> runtime \<Rightarrow> effect list" where
  "outcomes i r = filter (outcomeOf i) (effects r)"

section \<open>Example values\<close>

text \<open>
  A task as in the scenarios of the specification: id \<open>1\<close>, pending, due
  \<open>2020-01-01T00:00:00Z\<close> (1577836800000 ms after the epoch).
\<close>

definition scenarioTask :: Task where
  "scenarioTask =
     \<lparr>id' = ''1'', title = Some ''X'', description = None, priority = high, status = Some pending,
      dueDate = Some (DateStr 1577836800000), tags = None,
      createdAt = 1577000000000, updatedAt = 1577000000000\<rparr>"

text \<open>An environment whose clock starts at 1700000000000 and advances by 1 ms per reading.\<close>

definition exampleWorld :: "file_state \<Rightarrow> bool \<Rightarrow> world" where
  "exampleWorld d wr =
     \<lparr>disk = d, writable = wr, nwrites = 0, reported = 0,
      clock = (\<lambda>n. 1700000000000 + int n), nreads = 0\<rparr>"

definition exampleDocument :: file_state where
  "exampleDocument = Document \<lparr>data_tasks = [scenarioTask], lastUpdated = 1577000000000\<rparr>"

section \<open>Notions used in the statements\<close>

text \<open>What \<open>updateOverdueStatus\<close> does to one task, as a function.\<close>

definition markOverdue :: "int \<Rightarrow> Task \<Rightarrow> Task" where
  "markOverdue now t = (if becomesOverdue now t then t\<lparr>status := Some overdue, updatedAt := now\<rparr> else t)"

text \<open>
  A task the derived-status algorithm is about: it has a due timestamp that is strictly in the
  past, and its status is neither completed nor already overdue.
\<close>

definition pastDue :: "int \<Rightarrow> Task \<Rightarrow> bool" where
  "pastDue now t =
     ((\<exists>due. dueDate t = Some (DateStr due) \<and> due < now) \<and>
      status t \<noteq> Some completed \<and> status t \<noteq> Some overdue)"

text \<open>
  A task that has a due timestamp in the window from \<open>lo\<close> (included) to \<open>hi\<close>
  (excluded, or included).
\<close>

definition dueBetween :: "int \<Rightarrow> int \<Rightarrow> Task \<Rightarrow> bool" where
  "dueBetween lo hi t = (\<exists>d. dueDate t = Some (DateStr d) \<and> lo \<le> d \<and> d < hi)"

definition dueBetweenIncl :: "int \<Rightarrow> int \<Rightarrow> Task \<Rightarrow> bool" where
  "dueBetweenIncl lo hi t = (\<exists>d. dueDate t = Some (DateStr d) \<and> lo \<le> d \<and> d \<le> hi)"

text \<open>The invariant of claim C8 for one task, and a task dated after the example clock.\<close>

definition timestampsOrdered :: "Task \<Rightarrow> bool" where
  "timestampsOrdered t = (createdAt t \<le> updatedAt t)"

definition futureTask :: Task where
  "futureTask = scenarioTask\<lparr>id' := ''9'', dueDate := None,
                             createdAt := 1800000000000, updatedAt := 1800000000000\<rparr>"

text \<open>An environment in which every clock reading falls in the same millisecond.\<close>

definition frozenWorld :: world where
  "frozenWorld = (exampleWorld Invalid True)\<lparr>clock := (\<lambda>_. 1700000000000)\<rparr>"

text \<open>The arguments \<open>{title, priority}\<close> of an \<open>add_task\<close> call.\<close>

definition addArgs :: "string \<Rightarrow> Priority \<Rightarrow> tool_args" where
  "addArgs ti p =
     \<lparr>arg_id = None, arg_title = Some ti, arg_description = None, arg_priority = Some p,
      arg_status = None, arg_dueDate = None, arg_tags = None, arg_tag = None\<rparr>"

text \<open>The tool result, the collection and the environment after a call of the handler.\<close>

fun resultOf :: "call_outcome \<Rightarrow> tool_result" where
  "resultOf (Returned res s w) = res"

fun storeAfter :: "call_outcome \<Rightarrow> TaskService" where
  "storeAfter (Returned res s w) = s"

fun worldAfter :: "call_outcome \<Rightarrow> world" where
  "worldAfter (Returned res s w) = w"

text \<open>The arguments \<open>{title}\<close> of an \<open>add_task\<close> call that carries no priority.\<close>

definition titleOnly :: "string \<Rightarrow> tool_args" where
  "titleOnly ti =
     \<lparr>arg_id = None, arg_title = Some ti, arg_description = None, arg_priority = None,
      arg_status = None, arg_dueDate = None, arg_tags = None, arg_tag = None\<rparr>"

text \<open>A call ended in a tool result that is error-flagged.\<close>

fun errorFlagged :: "call_outcome \<Rightarrow> bool" where
  "errorFlagged (Returned res s w) = isError res"

text \<open>
  Lines and the value of \<open>JSON.parse\<close> on them, for the examples: a response to request 1
  (the line of the specification's scenario, in two halves) and a notification.  The example
  parser knows these two lines and rejects every other.
\<close>

definition responseHead :: string where
  \<open>responseHead = ''{"jsonrpc":"2.0","id":1,"resu''\<close>

definition responseTail :: string where
  \<open>responseTail = ''lt":5}''\<close>

definition responseMessage :: json where
  "responseMessage = JObj [(''jsonrpc'', JStr ''2.0''), (''id'', JNum 1), (''result'', JNum 5)]"

definition notificationLine :: string where
  \<open>notificationLine = ''{"jsonrpc":"2.0","method":"notifications/message"}''\<close>

definition notificationMessage :: json where
  "notificationMessage = JObj [(''jsonrpc'', JStr ''2.0''), (''method'', JStr ''notifications/message'')]"

definition exampleParse :: "string \<Rightarrow> json option" where
  "exampleParse line =
     (if line = responseHead @ responseTail then Some responseMessage
      else if line = notificationLine then Some notificationMessage
      else None)"





text \<open>The arguments \<open>{id}\<close> of a call that names a task.\<close>

definition idOnly :: "string \<Rightarrow> tool_args" where
  "idOnly i =
     \<lparr>arg_id = Some i, arg_title = None, arg_description = None, arg_priority = None,
      arg_status = None, arg_dueDate = None, arg_tags = None, arg_tag = None\<rparr>"

text \<open>
  The tools whose handler case begins with a read of the store, which reloads first.
\<close>

definition readingTools :: "string list" where
  "readingTools = [''get_tasks'', ''get_task_summary'', ''get_task_by_id'',
                   ''get_overdue_tasks'', ''get_today_tasks'']"

text \<open>The messages logged as responses and the lines logged as parse errors, in order.\<close>

definition responses :: "runtime \<Rightarrow> json list" where
  "responses r = List.map_filter (\<lambda>e. case e of LogResponse m \<Rightarrow> Some m | _ \<Rightarrow> None) (effects r)"

definition parseErrors :: "runtime \<Rightarrow> string list" where
  "parseErrors r = List.map_filter (\<lambda>e. case e of LogParseError l \<Rightarrow> Some l | _ \<Rightarrow> None) (effects r)"

text \<open>The methods of the requests sent, in order: request \<open>i\<close> is the \<open>i\<close>-th of them.\<close>

definition sentMethods :: "event list \<Rightarrow> string list" where
  "sentMethods evs = List.map_filter (\<lambda>e. case e of Send m p \<Rightarrow> Some m | _ \<Rightarrow> None) evs"

text \<open>
  What holds of a client after the requests with the methods \<open>ms\<close> were sent: the ids issued
  are \<open>1, \<dots>, length ms\<close>; an entry of the pending table is stored under the id of its own
  promise, for an id issued, and its timer is still armed; a promise has no outcome while its
  entry is there and one once it is gone; a timer, and a timeout rejection, carry the method
  of their request.
\<close>

definition clientInv :: "string list \<Rightarrow> MCPClient \<Rightarrow> runtime \<Rightarrow> bool" where
  "clientInv ms c r =
     (messageId c = length ms \<and>
      (\<forall>i p. pendingRequests c i = Some p \<longrightarrow>
         p = i \<and> 1 \<le> i \<and> i \<le> length ms \<and> i \<in> fst ` set (timers r)) \<and>
      (\<forall>i. length (outcomes i r) =
         (if 1 \<le> i \<and> i \<le> length ms \<and> pendingRequests c i = None then 1 else 0)) \<and>
      (\<forall>i m. (i, m) \<in> set (timers r) \<longrightarrow> 1 \<le> i \<and> i \<le> length ms \<and> ms ! (i - 1) = m) \<and>
      (\<forall>i m. Reject i (RequestTimeout m) \<in> set (effects r) \<longrightarrow>
         1 \<le> i \<and> i \<le> length ms \<and> ms ! (i - 1) = m))"

text \<open>
  A session of two requests: the response to the first arrives in two chunks, no response to
  the second ever arrives, and then both timers fire.
\<close>

definition exampleSession :: "event list" where
  "exampleSession =
     [Send ''tools/list'' None, Data responseHead, Data (responseTail @ [newline]),
      Send ''tools/call'' None, Fire 0, Fire 0]"

section \<open>Properties of the task store\<close>

lemma findIndexById_None: "findIndexById i ts = None \<longleftrightarrow> i \<notin> Some ` id' ` set ts"
  by (induction ts) auto

text \<open>
  Claim C7.  Deleting an id that no task of the collection carries returns \<open>false\<close>, and
  updating the status of such an id returns "not found" (\<open>null\<close>); in both cases the
  collection in memory and the whole environment (the file, the count of writes) are
  unchanged: nothing is persisted.
\<close>

theorem nonexistent_id_unchanged:
  assumes "i \<notin> id' ` set (tasks s)"
  shows "deleteTask (Some i) s w = (Inr False, s, w) \<and>
         updateTaskStatus (Some i) st s w = (Inr None, s, w)"
proof -
  have "findIndexById (Some i) (tasks s) = None"
    using assms by (auto simp: findIndexById_None)
  then show ?thesis
    by (simp add: deleteTask_def updateTaskStatus_def)
qed

theorem nonexistent_id_unchanged_witness:
  "''2'' \<notin> id' ` set (tasks \<lparr>tasks = [scenarioTask]\<rparr>) \<and>
   deleteTask (Some ''2'') \<lparr>tasks = [scenarioTask]\<rparr> (exampleWorld exampleDocument True)
     = (Inr False, \<lparr>tasks = [scenarioTask]\<rparr>, exampleWorld exampleDocument True) \<and>
   updateTaskStatus (Some ''2'') (Some completed) \<lparr>tasks = [scenarioTask]\<rparr>
       (exampleWorld exampleDocument True)
     = (Inr None, \<lparr>tasks = [scenarioTask]\<rparr>, exampleWorld exampleDocument True)"
proof -
  have h: "''2'' \<notin> id' ` set (tasks \<lparr>tasks = [scenarioTask]\<rparr>)"
    by (simp add: scenarioTask_def)
  show ?thesis
    using h nonexistent_id_unchanged [OF h] by simp
qed

lemma overdueLoop_eq:
  "overdueLoop now ts h = (map (markOverdue now) ts, h \<or> list_ex (becomesOverdue now) ts)"
  by (induction ts arbitrary: h) (simp_all add: markOverdue_def)

lemma becomesOverdue_iff:
  "becomesOverdue now t \<longleftrightarrow>
     (\<exists>due. dueDate t = Some (DateStr due) \<and> due < now) \<and> status t \<noteq> Some completed \<and> status t \<noteq> Some overdue"
  by (auto simp: becomesOverdue_def split: option.splits datestring.splits)

lemma updateOverdueStatus_writable:
  assumes "writable w"
  shows "updateOverdueStatus s w =
     (let now = clock w (nreads w); ts' = map (markOverdue now) (tasks s) in
      if list_ex (becomesOverdue now) (tasks s)
      then (Inr (), s\<lparr>tasks := ts'\<rparr>,
            w\<lparr>nreads := Suc (Suc (nreads w)),
              disk := Document \<lparr>data_tasks = ts', lastUpdated = clock w (Suc (nreads w))\<rparr>,
              nwrites := Suc (nwrites w)\<rparr>)
      else (Inr (), s\<lparr>tasks := ts'\<rparr>, w\<lparr>nreads := Suc (nreads w)\<rparr>))"
  using assms
  by (simp add: updateOverdueStatus_def newDate_def overdueLoop_eq saveTasks_def writeFileSync_def Let_def)

lemma loadTasks_document:
  assumes "disk w = Document d" and "writable w"
  shows "loadTasks s w =
     (let now = clock w (nreads w); ts' = map (markOverdue now) (data_tasks d) in
      if list_ex (becomesOverdue now) (data_tasks d)
      then (Inr (), s\<lparr>tasks := ts'\<rparr>,
            w\<lparr>nreads := Suc (Suc (nreads w)),
              disk := Document \<lparr>data_tasks = ts', lastUpdated = clock w (Suc (nreads w))\<rparr>,
              nwrites := Suc (nwrites w)\<rparr>)
      else (Inr (), s\<lparr>tasks := ts'\<rparr>, w\<lparr>nreads := Suc (nreads w)\<rparr>))"
  using assms
  by (simp add: loadTasks_def readAndDerive_def updateOverdueStatus_writable Let_def)

lemma pastDue_eq: "pastDue now t = becomesOverdue now t"
  by (simp add: pastDue_def becomesOverdue_iff)

lemma list_ex_pastDue: "list_ex (becomesOverdue now) ts = (\<exists>k<length ts. pastDue now (ts ! k))"
  by (auto simp: list_ex_iff pastDue_eq in_set_conv_nth intro: nth_mem)

lemma dueWithin_iff: "dueDate t = Some ds \<Longrightarrow> dueWithin ds lo hi = dueBetween lo hi t"
  by (auto simp: dueWithin_def dueBetween_def split: datestring.splits)

lemma dueWithinIncl_iff: "dueDate t = Some ds \<Longrightarrow> dueWithinIncl ds lo hi = dueBetweenIncl lo hi t"
  by (auto simp: dueWithinIncl_def dueBetweenIncl_def split: datestring.splits)

lemma dueBetween_None: "dueDate t = None \<Longrightarrow> \<not> dueBetween lo hi t \<and> \<not> dueBetweenIncl lo hi t"
  by (simp add: dueBetween_def dueBetweenIncl_def)

lemma summaryStep_fields:
  "total (summaryStep n tm ts te t sm) = total sm"
  "byStatus (summaryStep n tm ts te t sm) st = byStatus sm st + (if status t = Some st then 1 else 0)"
  "byPriority (summaryStep n tm ts te t sm) p = byPriority sm p + (if priority t = p then 1 else 0)"
  "overdueTasks (summaryStep n tm ts te t sm) = overdueTasks sm @ filter (\<lambda>t. status t = Some overdue) [t]"
  "upcomingTasks (summaryStep n tm ts te t sm) =
     upcomingTasks sm @ filter (\<lambda>t. dueBetweenIncl n tm t \<and> status t \<noteq> Some completed) [t]"
  "todayTasks (summaryStep n tm ts te t sm) =
     todayTasks sm @ filter (\<lambda>t. dueBetween ts te t \<and> status t \<noteq> Some completed) [t]"
  by (cases "dueDate t"; cases "status t";
      simp add: summaryStep_def Let_def dueWithin_iff dueWithinIncl_iff dueBetween_None)+

lemma summaryLoop_fields:
  "total (summaryLoop n tm ts te xs sm) = total sm"
  "byStatus (summaryLoop n tm ts te xs sm) st =
     byStatus sm st + length (filter (\<lambda>t. status t = Some st) xs)"
  "byPriority (summaryLoop n tm ts te xs sm) p = byPriority sm p + length (filter (\<lambda>t. priority t = p) xs)"
  "overdueTasks (summaryLoop n tm ts te xs sm) = overdueTasks sm @ filter (\<lambda>t. status t = Some overdue) xs"
  "upcomingTasks (summaryLoop n tm ts te xs sm) =
     upcomingTasks sm @ filter (\<lambda>t. dueBetweenIncl n tm t \<and> status t \<noteq> Some completed) xs"
  "todayTasks (summaryLoop n tm ts te xs sm) =
     todayTasks sm @ filter (\<lambda>t. dueBetween ts te t \<and> status t \<noteq> Some completed) xs"
  by (induction xs arbitrary: sm; simp add: summaryStep_fields)+

lemma readAndDerive_returns: "\<exists>u. fst (readAndDerive s w) = Inr u"
  by (auto simp: readAndDerive_def loadFailed_def split: file_state.splits prod.splits sum.splits)

lemma loadTasks_returns:
  assumes "disk w \<noteq> Missing \<or> writable w"
  shows "fst (loadTasks s w) = Inr ()"
  using assms readAndDerive_returns
  by (auto simp: loadTasks_def createSampleTasks_def writeFileSync_def newDate_def Let_def
      split: prod.splits sum.splits)

lemma saveTasks_unwritable:
  "\<not> writable w \<Longrightarrow> saveTasks s w = (Inl WriteError, w\<lparr>nreads := Suc (nreads w)\<rparr>)"
  by (simp add: saveTasks_def newDate_def writeFileSync_def)

lemma updateOverdueStatus_unwritable:
  assumes "\<not> writable w"
  shows "updateOverdueStatus s w =
     (let now = clock w (nreads w); ts' = map (markOverdue now) (tasks s) in
      if list_ex (becomesOverdue now) (tasks s)
      then (Inl WriteError, s\<lparr>tasks := ts'\<rparr>, w\<lparr>nreads := Suc (Suc (nreads w))\<rparr>)
      else (Inr (), s\<lparr>tasks := ts'\<rparr>, w\<lparr>nreads := Suc (nreads w)\<rparr>))"
  using assms
  by (simp add: updateOverdueStatus_def newDate_def overdueLoop_eq saveTasks_def
      writeFileSync_def Let_def)

lemma markOverdue_unchanged:
  "\<not> list_ex (becomesOverdue now) ts \<Longrightarrow> map (markOverdue now) ts = ts"
  by (induction ts) (auto simp: markOverdue_def)

lemma loadTasks_document_any:
  assumes "disk w = Document d"
  shows "loadTasks s w =
     (let now = clock w (nreads w); ts' = map (markOverdue now) (data_tasks d) in
      if list_ex (becomesOverdue now) (data_tasks d)
      then (if writable w
            then (Inr (), s\<lparr>tasks := ts'\<rparr>,
                  w\<lparr>nreads := Suc (Suc (nreads w)),
                    disk := Document \<lparr>data_tasks = ts', lastUpdated = clock w (Suc (nreads w))\<rparr>,
                    nwrites := Suc (nwrites w)\<rparr>)
            else (Inr (), s\<lparr>tasks := []\<rparr>,
                  w\<lparr>nreads := Suc (Suc (nreads w)), reported := Suc (reported w)\<rparr>))
      else (Inr (), s\<lparr>tasks := data_tasks d\<rparr>, w\<lparr>nreads := Suc (nreads w)\<rparr>))"
proof (cases "writable w")
  case True
  show ?thesis
    using loadTasks_document [OF assms True, of s] True
    by (simp add: Let_def markOverdue_unchanged)
next
  case False
  show ?thesis
    using assms False
    by (simp add: loadTasks_def readAndDerive_def loadFailed_def updateOverdueStatus_unwritable
        markOverdue_unchanged Let_def)
qed

lemma loadTasks_missing:
  assumes "disk w = Missing" and "writable w"
  shows "loadTasks s w =
     loadTasks s (w\<lparr>nreads := Suc (nreads w),
                    disk := Document \<lparr>data_tasks = sampleTasks (clock w (nreads w)),
                                      lastUpdated = clock w (nreads w)\<rparr>,
                    nwrites := Suc (nwrites w)\<rparr>)"
proof -
  let ?w1 = "w\<lparr>nreads := Suc (nreads w),
                disk := Document \<lparr>data_tasks = sampleTasks (clock w (nreads w)),
                                  lastUpdated = clock w (nreads w)\<rparr>,
                nwrites := Suc (nwrites w)\<rparr>"
  have c: "createSampleTasks s w = (Inr (), s\<lparr>tasks := sampleTasks (clock w (nreads w))\<rparr>, ?w1)"
    using assms by (simp add: createSampleTasks_def newDate_def writeFileSync_def)
  have d: "disk ?w1 = Document \<lparr>data_tasks = sampleTasks (clock w (nreads w)),
                                 lastUpdated = clock w (nreads w)\<rparr>"
    by simp
  have r: "readAndDerive (s\<lparr>tasks := ts\<rparr>) ?w1 = readAndDerive s ?w1" for ts
    by (simp add: readAndDerive_def)
  show ?thesis
    using assms(1) by (simp add: loadTasks_def c r)
qed

lemma reads_after_load:
  assumes "loadTasks s w = (Inr u, s', w')"
  shows "getAllTasks s w = (Inr (tasks s'), s', w')"
    "getTaskById i s w = (Inr (findById i (tasks s')), s', w')"
    "getTasks filt s w =
       (Inr (case filt of None \<Rightarrow> tasks s' | Some f \<Rightarrow> applyFilter f (tasks s')), s', w')"
    "\<exists>sm. getSummary tz s w = (Inr sm, s', w'\<lparr>nreads := Suc (nreads w')\<rparr>) \<and>
          total sm = length (tasks s') \<and>
          overdueTasks sm = filter (\<lambda>t. status t = Some overdue) (tasks s')"
  using assms
  by (simp_all add: reloadTasks_def getAllTasks_def getTaskById_def getTasks_def getSummary_def
      newDate_def Let_def summaryLoop_fields)

lemma reads_after_failed_load:
  assumes "loadTasks s w = (Inl e, s', w')"
  shows "getAllTasks s w = (Inl e, s', w')"
    "getTaskById i s w = (Inl e, s', w')"
    "getTasks filt s w = (Inl e, s', w')"
    "getSummary tz s w = (Inl e, s', w')"
  using assms
  by (simp_all add: reloadTasks_def getAllTasks_def getTaskById_def getTasks_def getSummary_def)

text \<open>
  Claim C2, amended.  Every load of a document runs the derived-status algorithm, with one
  clock reading \<open>now\<close>: the tasks that have a due timestamp strictly before \<open>now\<close> and a
  status that is neither completed nor overdue get status overdue and \<open>updatedAt = now\<close>,
  with every other field and every other task as in the document, and a task that is overdue
  stays as it is.  If some task changed, the whole collection is written once (one more
  write, the file holds the collection after the load); if none did, nothing is written.
  If that one write fails, the load still returns, but it reports the failure, leaves the
  collection in memory empty and the file as it was: this is where the claim as stated
  fails (the counterexample is its own scenario on a path that cannot be written).
  A load that finds no document writes the starter document first and is then the load of
  that document.  \<open>reloadTasks\<close> is this load, and every read (\<open>getAllTasks\<close>,
  \<open>getTaskById\<close>, \<open>getTasks\<close> with or without a filter, \<open>getSummary\<close>) runs it first and
  answers from the collection it leaves, or passes on the exception of the bootstrap write.
  The witness is the scenario of the specification on a writable path: the task with id 1,
  pending, due 2020-01-01T00:00:00Z, is overdue after one load, and a filtered read returns
  it as overdue.
\<close>

theorem overdue_derived_on_load:
  assumes load: "loadTasks s w = (r, s', w')"
  shows
   "(disk w = Document d \<and> now = clock w (nreads w) \<longrightarrow>
       r = Inr () \<and>
       (if (\<exists>k<length (data_tasks d). pastDue now (data_tasks d ! k)) \<and> \<not> writable w
        then tasks s' = [] \<and> reported w' = Suc (reported w) \<and>
             nwrites w' = nwrites w \<and> disk w' = disk w
        else length (tasks s') = length (data_tasks d) \<and>
             (\<forall>k<length (data_tasks d).
                tasks s' ! k =
                  (if pastDue now (data_tasks d ! k)
                   then (data_tasks d ! k)\<lparr>status := Some overdue, updatedAt := now\<rparr>
                   else data_tasks d ! k)) \<and>
             (\<forall>k<length (data_tasks d).
                status (data_tasks d ! k) = Some overdue \<longrightarrow> tasks s' ! k = data_tasks d ! k) \<and>
             reported w' = reported w \<and>
             (if \<exists>k<length (data_tasks d). pastDue now (data_tasks d ! k)
              then nwrites w' = Suc (nwrites w) \<and>
                   (\<exists>t. disk w' = Document \<lparr>data_tasks = tasks s', lastUpdated = t\<rparr>)
              else nwrites w' = nwrites w \<and> disk w' = disk w))) \<and>
    (disk w = Missing \<and> writable w \<longrightarrow>
       (r, s', w') =
         loadTasks s (w\<lparr>nreads := Suc (nreads w),
                        disk := Document \<lparr>data_tasks = sampleTasks (clock w (nreads w)),
                                          lastUpdated = clock w (nreads w)\<rparr>,
                        nwrites := Suc (nwrites w)\<rparr>)) \<and>
    reloadTasks s w = (r, s', w') \<and>
    (case r of
       Inr u \<Rightarrow>
         getAllTasks s w = (Inr (tasks s'), s', w') \<and>
         getTaskById i s w = (Inr (findById i (tasks s')), s', w') \<and>
         getTasks filt s w =
           (Inr (case filt of None \<Rightarrow> tasks s' | Some f \<Rightarrow> applyFilter f (tasks s')), s', w') \<and>
         (\<exists>sm. getSummary tz s w = (Inr sm, s', w'\<lparr>nreads := Suc (nreads w')\<rparr>) \<and>
               total sm = length (tasks s') \<and>
               overdueTasks sm = filter (\<lambda>t. status t = Some overdue) (tasks s'))
     | Inl e \<Rightarrow>
         getAllTasks s w = (Inl e, s', w') \<and> getTaskById i s w = (Inl e, s', w') \<and>
         getTasks filt s w = (Inl e, s', w') \<and> getSummary tz s w = (Inl e, s', w'))"
proof (intro conjI)
  show "disk w = Document d \<and> now = clock w (nreads w) \<longrightarrow>
       r = Inr () \<and>
       (if (\<exists>k<length (data_tasks d). pastDue now (data_tasks d ! k)) \<and> \<not> writable w
        then tasks s' = [] \<and> reported w' = Suc (reported w) \<and>
             nwrites w' = nwrites w \<and> disk w' = disk w
        else length (tasks s') = length (data_tasks d) \<and>
             (\<forall>k<length (data_tasks d).
                tasks s' ! k =
                  (if pastDue now (data_tasks d ! k)
                   then (data_tasks d ! k)\<lparr>status := Some overdue, updatedAt := now\<rparr>
                   else data_tasks d ! k)) \<and>
             (\<forall>k<length (data_tasks d).
                status (data_tasks d ! k) = Some overdue \<longrightarrow> tasks s' ! k = data_tasks d ! k) \<and>
             reported w' = reported w \<and>
             (if \<exists>k<length (data_tasks d). pastDue now (data_tasks d ! k)
              then nwrites w' = Suc (nwrites w) \<and>
                   (\<exists>t. disk w' = Document \<lparr>data_tasks = tasks s', lastUpdated = t\<rparr>)
              else nwrites w' = nwrites w \<and> disk w' = disk w))"
  proof
    assume a: "disk w = Document d \<and> now = clock w (nreads w)"
    then have doc: "disk w = Document d" and now: "now = clock w (nreads w)"
      by simp_all
    note L = loadTasks_document_any [OF doc, of s, unfolded Let_def, folded now]
    let ?ch = "\<exists>k<length (data_tasks d). pastDue now (data_tasks d ! k)"
    have ch: "list_ex (becomesOverdue now) (data_tasks d) = ?ch"
      by (rule list_ex_pastDue)
    show "r = Inr () \<and>
       (if ?ch \<and> \<not> writable w
        then tasks s' = [] \<and> reported w' = Suc (reported w) \<and>
             nwrites w' = nwrites w \<and> disk w' = disk w
        else length (tasks s') = length (data_tasks d) \<and>
             (\<forall>k<length (data_tasks d).
                tasks s' ! k =
                  (if pastDue now (data_tasks d ! k)
                   then (data_tasks d ! k)\<lparr>status := Some overdue, updatedAt := now\<rparr>
                   else data_tasks d ! k)) \<and>
             (\<forall>k<length (data_tasks d).
                status (data_tasks d ! k) = Some overdue \<longrightarrow> tasks s' ! k = data_tasks d ! k) \<and>
             reported w' = reported w \<and>
             (if ?ch
              then nwrites w' = Suc (nwrites w) \<and>
                   (\<exists>t. disk w' = Document \<lparr>data_tasks = tasks s', lastUpdated = t\<rparr>)
              else nwrites w' = nwrites w \<and> disk w' = disk w))"
    proof (cases ?ch)
      case True
      show ?thesis
      proof (cases "writable w")
        case wr: True
        have "(r, s', w') = (Inr (), s\<lparr>tasks := map (markOverdue now) (data_tasks d)\<rparr>,
                  w\<lparr>nreads := Suc (Suc (nreads w)),
                    disk := Document \<lparr>data_tasks = map (markOverdue now) (data_tasks d),
                                      lastUpdated = clock w (Suc (nreads w))\<rparr>,
                    nwrites := Suc (nwrites w)\<rparr>)"
          using L load True wr by (simp add: ch)
        then show ?thesis
          using True wr by (simp add: markOverdue_def pastDue_eq becomesOverdue_iff)
      next
        case nw: False
        have "(r, s', w') = (Inr (), s\<lparr>tasks := []\<rparr>,
                  w\<lparr>nreads := Suc (Suc (nreads w)), reported := Suc (reported w)\<rparr>)"
          using L load True nw by (simp add: ch)
        then show ?thesis
          using True nw by simp
      qed
    next
      case False
      have "(r, s', w') = (Inr (), s\<lparr>tasks := data_tasks d\<rparr>, w\<lparr>nreads := Suc (nreads w)\<rparr>)"
        using L load False by (simp add: ch)
      then show ?thesis
        using False by (auto simp: pastDue_def)
    qed
  qed
next
  show "disk w = Missing \<and> writable w \<longrightarrow>
       (r, s', w') =
         loadTasks s (w\<lparr>nreads := Suc (nreads w),
                        disk := Document \<lparr>data_tasks = sampleTasks (clock w (nreads w)),
                                          lastUpdated = clock w (nreads w)\<rparr>,
                        nwrites := Suc (nwrites w)\<rparr>)"
    using loadTasks_missing [of w s] load by auto
next
  show "reloadTasks s w = (r, s', w')"
    using load by (simp add: reloadTasks_def)
next
  show "case r of
       Inr u \<Rightarrow>
         getAllTasks s w = (Inr (tasks s'), s', w') \<and>
         getTaskById i s w = (Inr (findById i (tasks s')), s', w') \<and>
         getTasks filt s w =
           (Inr (case filt of None \<Rightarrow> tasks s' | Some f \<Rightarrow> applyFilter f (tasks s')), s', w') \<and>
         (\<exists>sm. getSummary tz s w = (Inr sm, s', w'\<lparr>nreads := Suc (nreads w')\<rparr>) \<and>
               total sm = length (tasks s') \<and>
               overdueTasks sm = filter (\<lambda>t. status t = Some overdue) (tasks s'))
     | Inl e \<Rightarrow>
         getAllTasks s w = (Inl e, s', w') \<and> getTaskById i s w = (Inl e, s', w') \<and>
         getTasks filt s w = (Inl e, s', w') \<and> getSummary tz s w = (Inl e, s', w')"
  proof (cases r)
    case (Inl e)
    then show ?thesis
      using reads_after_failed_load [of s w e s' w'] load by simp
  next
    case (Inr u)
    then show ?thesis
      using reads_after_load [of s w u s' w'] load by simp
  qed
qed

theorem overdue_derivation_counterexample:
  "disk (exampleWorld exampleDocument False)
     = Document \<lparr>data_tasks = [scenarioTask], lastUpdated = 1577000000000\<rparr> \<and>
   id' scenarioTask = ''1'' \<and> status scenarioTask = Some pending \<and>
   dueDate scenarioTask = Some (DateStr 1577836800000) \<and>
   clock (exampleWorld exampleDocument False) (nreads (exampleWorld exampleDocument False))
     = 1700000000000 \<and>
   reloadTasks \<lparr>tasks = []\<rparr> (exampleWorld exampleDocument False)
     = (Inr (), \<lparr>tasks = []\<rparr>,
        (exampleWorld exampleDocument False)\<lparr>nreads := 2, reported := 1\<rparr>)"
proof -
  have d: "disk (exampleWorld exampleDocument False)
     = Document \<lparr>data_tasks = [scenarioTask], lastUpdated = 1577000000000\<rparr>"
    by (simp add: exampleWorld_def exampleDocument_def)
  have b: "becomesOverdue 1700000000000 scenarioTask"
    by (simp add: becomesOverdue_def scenarioTask_def)
  have "reloadTasks \<lparr>tasks = []\<rparr> (exampleWorld exampleDocument False)
     = (Inr (), \<lparr>tasks = []\<rparr>,
        (exampleWorld exampleDocument False)\<lparr>nreads := 2, reported := 1\<rparr>)"
    unfolding reloadTasks_def loadTasks_document_any [OF d]
    using b by (simp add: exampleWorld_def Let_def numeral_2_eq_2)
  then show ?thesis
    using d by (simp add: scenarioTask_def exampleWorld_def)
qed

theorem overdue_derived_on_load_witness:
  "disk (exampleWorld exampleDocument True)
     = Document \<lparr>data_tasks = [scenarioTask], lastUpdated = 1577000000000\<rparr> \<and>
   writable (exampleWorld exampleDocument True) \<and>
   pastDue 1700000000000 scenarioTask \<and>
   fst (loadTasks \<lparr>tasks = []\<rparr> (exampleWorld exampleDocument True)) = Inr () \<and>
   tasks (fst (snd (loadTasks \<lparr>tasks = []\<rparr> (exampleWorld exampleDocument True))))
     = [scenarioTask\<lparr>status := Some overdue, updatedAt := 1700000000000\<rparr>] \<and>
   nwrites (snd (snd (loadTasks \<lparr>tasks = []\<rparr> (exampleWorld exampleDocument True)))) = 1 \<and>
   fst (getTasks (Some \<lparr>f_status = Some overdue, f_priority = None, f_tag = None,
                         dueBefore = None, dueAfter = None\<rparr>)
          \<lparr>tasks = []\<rparr> (exampleWorld exampleDocument True))
     = Inr [scenarioTask\<lparr>status := Some overdue, updatedAt := 1700000000000\<rparr>]"
proof -
  let ?w = "exampleWorld exampleDocument True"
  let ?d = "\<lparr>data_tasks = [scenarioTask], lastUpdated = 1577000000000\<rparr>"
  let ?l = "loadTasks \<lparr>tasks = []\<rparr> ?w"
  let ?f = "Some \<lparr>f_status = Some overdue, f_priority = None, f_tag = None,
                   dueBefore = None, dueAfter = None\<rparr>"
  let ?t = "scenarioTask\<lparr>status := Some overdue, updatedAt := 1700000000000\<rparr>"
  have d: "disk ?w = Document ?d"
    by (simp add: exampleWorld_def exampleDocument_def)
  have wr: "writable ?w"
    by (simp add: exampleWorld_def)
  have now: "1700000000000 = clock ?w (nreads ?w)"
    by (simp add: exampleWorld_def)
  have load: "?l = (fst ?l, fst (snd ?l), snd (snd ?l))"
    by simp
  have past: "pastDue 1700000000000 scenarioTask"
    by (simp add: pastDue_def scenarioTask_def)
  note T = overdue_derived_on_load [OF load, of ?d 1700000000000 undefined ?f undefined]
  note A = T [THEN conjunct1, rule_format, OF conjI [OF d now]]
  have r: "fst ?l = Inr ()"
    using A by simp
  have len: "length (tasks (fst (snd ?l))) = 1"
    using A wr by simp
  have k0: "tasks (fst (snd ?l)) ! 0 = ?t"
    using A wr past by simp
  have ts: "tasks (fst (snd ?l)) = [?t]"
    using len k0 by (cases "tasks (fst (snd ?l))") simp_all
  have n: "nwrites (snd (snd ?l)) = 1"
    using A wr past by (simp add: exampleWorld_def)
  have "getTasks ?f \<lparr>tasks = []\<rparr> ?w
          = (Inr (applyFilter (the ?f) (tasks (fst (snd ?l)))), fst (snd ?l), snd (snd ?l))"
    using T [THEN conjunct2, THEN conjunct2, THEN conjunct2] r by simp
  then have g: "fst (getTasks ?f \<lparr>tasks = []\<rparr> ?w) = Inr [?t]"
    by (simp add: ts applyFilter_def)
  show ?thesis
    using d wr past r ts n g by simp
qed







lemma findIndexById_Some:
  "findIndexById i ts = Some k \<Longrightarrow> k < length ts \<and> Some (id' (ts ! k)) = i"
  by (induction ts arbitrary: k) (auto split: if_splits)

lemma addTask_tasks:
  "tasks (fst (snd (addTask x s w))) =
     tasks s @ [x\<lparr>id' := Number_toString (clock w (Suc (nreads w))),
                  createdAt := clock w (nreads w), updatedAt := clock w (nreads w)\<rparr>]"
  by (simp add: addTask_def newDate_def Let_def split: prod.splits sum.splits)

lemma updateTaskStatus_tasks:
  "tasks (fst (snd (updateTaskStatus i st s w))) =
     (case findIndexById i (tasks s) of
        None \<Rightarrow> tasks s
      | Some k \<Rightarrow> (tasks s)[k := (tasks s ! k)\<lparr>status := st, updatedAt := clock w (nreads w)\<rparr>])"
  by (simp add: updateTaskStatus_def newDate_def Let_def split: option.splits prod.splits sum.splits)

lemma updateOverdueStatus_tasks:
  "tasks (fst (snd (updateOverdueStatus s w))) = map (markOverdue (clock w (nreads w))) (tasks s)"
  by (simp add: updateOverdueStatus_def newDate_def overdueLoop_eq Let_def split: prod.splits)

lemma loadTasks_tasks_document:
  assumes "disk w = Document d"
  shows "tasks (fst (snd (loadTasks s w))) = map (markOverdue (clock w (nreads w))) (data_tasks d)
         \<or> tasks (fst (snd (loadTasks s w))) = []"
proof -
  have "tasks (fst (snd (updateOverdueStatus (s\<lparr>tasks := data_tasks d\<rparr>) w)))
          = map (markOverdue (clock w (nreads w))) (data_tasks d)"
    by (simp add: updateOverdueStatus_tasks)
  then show ?thesis
    using assms
    by (auto simp: loadTasks_def readAndDerive_def loadFailed_def split: prod.splits sum.splits)
qed

lemma markOverdue_ordered:
  "timestampsOrdered t \<Longrightarrow> createdAt t \<le> now \<Longrightarrow> timestampsOrdered (markOverdue now t)"
  by (simp add: timestampsOrdered_def markOverdue_def)

text \<open>
  Claim C8, amended.  \<open>updatedAt >= createdAt\<close> for every task of the collection is preserved
  by \<open>addTask\<close>, \<open>updateTaskStatus\<close>, the overdue derivation and a load of the document that
  holds the collection, provided that no task of the collection has a \<open>createdAt\<close> after the
  clock reading the operation stamps (whatever the write does).  As the claim states it, for
  every collection that satisfies the invariant, it fails: \<open>updateTaskStatus\<close> and the overdue
  derivation stamp the wall clock, and a task whose \<open>createdAt\<close> is later than that reading
  ends with \<open>updatedAt < createdAt\<close> (the counterexample: a task created and updated at
  1800000000000, completed when the clock reads 1700000000000).
\<close>

theorem timestamps_ordered_preserved:
  assumes ord: "\<forall>t\<in>set (tasks s). timestampsOrdered t"
    and clk: "\<forall>t\<in>set (tasks s). createdAt t \<le> clock w (nreads w)"
  shows "(\<forall>t\<in>set (tasks (fst (snd (addTask x s w)))). timestampsOrdered t) \<and>
         (\<forall>t\<in>set (tasks (fst (snd (updateTaskStatus i st s w)))). timestampsOrdered t) \<and>
         (\<forall>t\<in>set (tasks (fst (snd (updateOverdueStatus s w)))). timestampsOrdered t) \<and>
         (disk w = Document \<lparr>data_tasks = tasks s, lastUpdated = u\<rparr> \<longrightarrow>
            (\<forall>t\<in>set (tasks (fst (snd (loadTasks s0 w)))). timestampsOrdered t))"
proof -
  have add: "\<forall>t\<in>set (tasks (fst (snd (addTask x s w)))). timestampsOrdered t"
    using ord by (auto simp: addTask_tasks timestampsOrdered_def)
  have upd: "\<forall>t\<in>set (tasks (fst (snd (updateTaskStatus i st s w)))). timestampsOrdered t"
  proof (cases "findIndexById i (tasks s)")
    case None
    then show ?thesis using ord by (simp add: updateTaskStatus_tasks)
  next
    case (Some k)
    then have k: "k < length (tasks s)"
      using findIndexById_Some by blast
    then have "tasks s ! k \<in> set (tasks s)" by simp
    then have "timestampsOrdered ((tasks s ! k)\<lparr>status := st, updatedAt := clock w (nreads w)\<rparr>)"
      using clk by (simp add: timestampsOrdered_def)
    then show ?thesis
      using ord Some by (auto simp: updateTaskStatus_tasks dest!: set_update_subset_insert [THEN subsetD])
  qed
  have der: "\<forall>t\<in>set (map (markOverdue (clock w (nreads w))) (tasks s)). timestampsOrdered t"
    using ord clk by (auto intro: markOverdue_ordered)
  have load: "disk w = Document \<lparr>data_tasks = tasks s, lastUpdated = u\<rparr> \<longrightarrow>
            (\<forall>t\<in>set (tasks (fst (snd (loadTasks s0 w)))). timestampsOrdered t)"
  proof
    assume "disk w = Document \<lparr>data_tasks = tasks s, lastUpdated = u\<rparr>"
    from loadTasks_tasks_document [OF this, of s0] der
    show "\<forall>t\<in>set (tasks (fst (snd (loadTasks s0 w)))). timestampsOrdered t"
      by auto
  qed
  show ?thesis
    using add upd der load by (simp add: updateOverdueStatus_tasks)
qed

theorem timestamps_ordered_counterexample:
  "list_all timestampsOrdered (tasks \<lparr>tasks = [futureTask]\<rparr>) \<and>
   \<not> list_all timestampsOrdered
       (tasks (fst (snd (updateTaskStatus (Some ''9'') (Some completed) \<lparr>tasks = [futureTask]\<rparr>
                           (exampleWorld Missing True)))))"
  by (simp add: updateTaskStatus_tasks timestampsOrdered_def futureTask_def scenarioTask_def
      exampleWorld_def)

theorem timestamps_ordered_preserved_witness:
  "list_all timestampsOrdered (tasks \<lparr>tasks = [scenarioTask]\<rparr>) \<and>
   list_all (\<lambda>t. createdAt t \<le> 1700000000000) (tasks \<lparr>tasks = [scenarioTask]\<rparr>) \<and>
   list_all timestampsOrdered
     (tasks (fst (snd (addTask scenarioTask \<lparr>tasks = [scenarioTask]\<rparr>
                         (exampleWorld exampleDocument True))))) \<and>
   list_all timestampsOrdered
     (tasks (fst (snd (updateTaskStatus (Some ''1'') (Some completed) \<lparr>tasks = [scenarioTask]\<rparr>
                         (exampleWorld exampleDocument True))))) \<and>
   list_all timestampsOrdered
     (tasks (fst (snd (updateOverdueStatus \<lparr>tasks = [scenarioTask]\<rparr>
                         (exampleWorld exampleDocument True))))) \<and>
   list_all timestampsOrdered
     (tasks (fst (snd (loadTasks \<lparr>tasks = []\<rparr> (exampleWorld exampleDocument True)))))"
proof -
  let ?s = "\<lparr>tasks = [scenarioTask]\<rparr>"
  let ?w = "exampleWorld exampleDocument True"
  have ord: "\<forall>t\<in>set (tasks ?s). timestampsOrdered t"
    by (simp add: timestampsOrdered_def scenarioTask_def)
  have clk: "\<forall>t\<in>set (tasks ?s). createdAt t \<le> clock ?w (nreads ?w)"
    by (simp add: scenarioTask_def exampleWorld_def)
  have d: "disk ?w = Document \<lparr>data_tasks = tasks ?s, lastUpdated = 1577000000000\<rparr>"
    by (simp add: exampleWorld_def exampleDocument_def)
  note T = timestamps_ordered_preserved [OF ord clk, of scenarioTask "Some ''1''" "Some completed"
      1577000000000 "\<lparr>tasks = []\<rparr>"]
  have c: "clock ?w (nreads ?w) = 1700000000000"
    by (simp add: exampleWorld_def)
  show ?thesis
    using T d ord clk unfolding c by (simp add: list_all_iff)
qed

lemma findIndexById_first:
  "findIndexById i ts = Some k \<longleftrightarrow>
     (k < length ts \<and> Some (id' (ts ! k)) = i \<and> (\<forall>j<k. Some (id' (ts ! j)) \<noteq> i))"
proof (induction ts arbitrary: k)
  case Nil
  then show ?case by simp
next
  case (Cons t ts)
  show ?case
  proof (cases "Some (id' t) = i")
    case True
    then show ?thesis by (cases k) auto
  next
    case False
    show ?thesis
    proof (cases k)
      case 0
      then show ?thesis using False by auto
    next
      case (Suc m)
      have "(\<forall>j<Suc m. Some (id' ((t # ts) ! j)) \<noteq> i) = (\<forall>j<m. Some (id' (ts ! j)) \<noteq> i)"
        using False by (auto simp: less_Suc_eq_0_disj)
      then show ?thesis
        using False Suc Cons.IH [of m] by auto
    qed
  qed
qed

lemma addTask_unwritable:
  "\<not> writable w \<Longrightarrow>
   addTask x s w =
     (Inl WriteError,
      s\<lparr>tasks := tasks s @
           [x\<lparr>id' := Number_toString (clock w (Suc (nreads w))),
              createdAt := clock w (nreads w), updatedAt := clock w (nreads w)\<rparr>]\<rparr>,
      w\<lparr>nreads := Suc (Suc (Suc (nreads w)))\<rparr>)"
  by (simp add: addTask_def newDate_def saveTasks_unwritable Let_def)

lemma updateTaskStatus_unwritable:
  "\<not> writable w \<Longrightarrow> findIndexById i (tasks s) = Some k \<Longrightarrow>
   updateTaskStatus i st s w =
     (Inl WriteError,
      s\<lparr>tasks := (tasks s)[k := (tasks s ! k)\<lparr>status := st, updatedAt := clock w (nreads w)\<rparr>]\<rparr>,
      w\<lparr>nreads := Suc (Suc (nreads w))\<rparr>)"
  by (simp add: updateTaskStatus_def newDate_def saveTasks_unwritable Let_def)

lemma deleteTask_unwritable:
  "\<not> writable w \<Longrightarrow> findIndexById i (tasks s) = Some k \<Longrightarrow>
   deleteTask i s w =
     (Inl WriteError, s\<lparr>tasks := take k (tasks s) @ drop (Suc k) (tasks s)\<rparr>,
      w\<lparr>nreads := Suc (nreads w)\<rparr>)"
  by (simp add: deleteTask_def saveTasks_unwritable splice1_def Let_def)

lemma callTool_mutation_unwritable:
  assumes "\<not> writable w"
  shows "resultOf (callTool tz ''add_task'' args s w) = errorResult (ErrorText WriteError)"
    "findIndexById (arg_id args) (tasks s) = Some k \<Longrightarrow>
       resultOf (callTool tz ''update_task_status'' args s w) = errorResult (ErrorText WriteError)"
    "findIndexById (arg_id args) (tasks s) = Some k \<Longrightarrow>
       resultOf (callTool tz ''delete_task'' args s w) = errorResult (ErrorText WriteError)"
  using assms
  by (simp_all add: callTool_def caught_def addTask_unwritable updateTaskStatus_unwritable
      deleteTask_unwritable)

text \<open>
  Claim C9, amended.  On a load of a document that exists, no exception escapes: an invalid
  document is reported (\<open>console.error\<close>) and the collection in memory becomes empty, and so
  is a write-back of derived overdue statuses that fails, the file staying as it was; when no
  status has to be derived nothing is written and the collection is the document's.  A failed
  save in \<open>addTask\<close>, \<open>updateTaskStatus\<close> or \<open>deleteTask\<close> is not handled by the store: the
  exception leaves the operation, the store reports nothing and the file is as before, and
  the collection in memory is exactly the collection with the change that could not be
  written (the new task appended; the first task with the id carrying the new status and
  \<open>updatedAt\<close>; that task removed) rather than the empty one.  The tool handler, which
  called the operation, turns the exception into an error-flagged result.  The counterexample
  is \<open>addTask\<close> on an empty collection with an unwritable path: it throws, and the
  collection holds the new task.
\<close>

theorem persistence_failures:
  "(disk w = Invalid \<longrightarrow>
      loadTasks s w = (Inr (), s\<lparr>tasks := []\<rparr>, w\<lparr>reported := Suc (reported w)\<rparr>)) \<and>
   (disk w = Document d \<and> \<not> writable w \<longrightarrow>
      fst (loadTasks s w) = Inr () \<and>
      disk (snd (snd (loadTasks s w))) = Document d \<and>
      (if \<exists>k<length (data_tasks d). pastDue (clock w (nreads w)) (data_tasks d ! k)
       then tasks (fst (snd (loadTasks s w))) = [] \<and>
            reported (snd (snd (loadTasks s w))) = Suc (reported w)
       else tasks (fst (snd (loadTasks s w))) = data_tasks d \<and>
            reported (snd (snd (loadTasks s w))) = reported w)) \<and>
   (disk w \<noteq> Missing \<longrightarrow> fst (loadTasks s w) = Inr ()) \<and>
   (\<not> writable w \<longrightarrow>
      addTask x s w =
        (Inl WriteError,
         s\<lparr>tasks := tasks s @
              [x\<lparr>id' := Number_toString (clock w (Suc (nreads w))),
                 createdAt := clock w (nreads w), updatedAt := clock w (nreads w)\<rparr>]\<rparr>,
         w\<lparr>nreads := Suc (Suc (Suc (nreads w)))\<rparr>) \<and>
      resultOf (callTool tz ''add_task'' args s w) = errorResult (ErrorText WriteError)) \<and>
   (\<not> writable w \<and> k < length (tasks s) \<and> Some (id' (tasks s ! k)) = i \<and>
    (\<forall>j<k. Some (id' (tasks s ! j)) \<noteq> i) \<longrightarrow>
      updateTaskStatus i st s w =
        (Inl WriteError,
         s\<lparr>tasks := (tasks s)[k := (tasks s ! k)\<lparr>status := st, updatedAt := clock w (nreads w)\<rparr>]\<rparr>,
         w\<lparr>nreads := Suc (Suc (nreads w))\<rparr>) \<and>
      deleteTask i s w =
        (Inl WriteError, s\<lparr>tasks := take k (tasks s) @ drop (Suc k) (tasks s)\<rparr>,
         w\<lparr>nreads := Suc (nreads w)\<rparr>) \<and>
      (arg_id args = i \<longrightarrow>
         resultOf (callTool tz ''update_task_status'' args s w) = errorResult (ErrorText WriteError) \<and>
         resultOf (callTool tz ''delete_task'' args s w) = errorResult (ErrorText WriteError)))"
proof (intro conjI impI)
  assume "disk w = Invalid"
  then show "loadTasks s w = (Inr (), s\<lparr>tasks := []\<rparr>, w\<lparr>reported := Suc (reported w)\<rparr>)"
    by (simp add: loadTasks_def readAndDerive_def loadFailed_def)
next
  assume a: "disk w = Document d \<and> \<not> writable w"
  then have L: "loadTasks s w =
      (if list_ex (becomesOverdue (clock w (nreads w))) (data_tasks d)
       then (Inr (), s\<lparr>tasks := []\<rparr>,
             w\<lparr>nreads := Suc (Suc (nreads w)), reported := Suc (reported w)\<rparr>)
       else (Inr (), s\<lparr>tasks := data_tasks d\<rparr>, w\<lparr>nreads := Suc (nreads w)\<rparr>))"
    using loadTasks_document_any [of w d s] by (simp add: Let_def)
  show "fst (loadTasks s w) = Inr ()"
    by (simp add: L)
  show "disk (snd (snd (loadTasks s w))) = Document d"
    using a by (simp add: L)
  show "if \<exists>k<length (data_tasks d). pastDue (clock w (nreads w)) (data_tasks d ! k)
       then tasks (fst (snd (loadTasks s w))) = [] \<and>
            reported (snd (snd (loadTasks s w))) = Suc (reported w)
       else tasks (fst (snd (loadTasks s w))) = data_tasks d \<and>
            reported (snd (snd (loadTasks s w))) = reported w"
    by (simp add: L list_ex_pastDue [symmetric])
next
  assume "disk w \<noteq> Missing"
  then show "fst (loadTasks s w) = Inr ()"
    using loadTasks_returns [of w s] by simp
next
  assume nw: "\<not> writable w"
  show "addTask x s w =
        (Inl WriteError,
         s\<lparr>tasks := tasks s @
              [x\<lparr>id' := Number_toString (clock w (Suc (nreads w))),
                 createdAt := clock w (nreads w), updatedAt := clock w (nreads w)\<rparr>]\<rparr>,
         w\<lparr>nreads := Suc (Suc (Suc (nreads w)))\<rparr>)"
    by (rule addTask_unwritable [OF nw])
  show "resultOf (callTool tz ''add_task'' args s w) = errorResult (ErrorText WriteError)"
    by (rule callTool_mutation_unwritable(1) [OF nw])
next
  assume a: "\<not> writable w \<and> k < length (tasks s) \<and> Some (id' (tasks s ! k)) = i \<and>
    (\<forall>j<k. Some (id' (tasks s ! j)) \<noteq> i)"
  then have nw: "\<not> writable w" and f: "findIndexById i (tasks s) = Some k"
    by (simp_all add: findIndexById_first)
  show "updateTaskStatus i st s w =
        (Inl WriteError,
         s\<lparr>tasks := (tasks s)[k := (tasks s ! k)\<lparr>status := st, updatedAt := clock w (nreads w)\<rparr>]\<rparr>,
         w\<lparr>nreads := Suc (Suc (nreads w))\<rparr>)"
    by (rule updateTaskStatus_unwritable [OF nw f])
  show "deleteTask i s w =
        (Inl WriteError, s\<lparr>tasks := take k (tasks s) @ drop (Suc k) (tasks s)\<rparr>,
         w\<lparr>nreads := Suc (nreads w)\<rparr>)"
    by (rule deleteTask_unwritable [OF nw f])
  assume e: "arg_id args = i"
  show "resultOf (callTool tz ''update_task_status'' args s w) = errorResult (ErrorText WriteError)"
    using callTool_mutation_unwritable(2) [OF nw, of args s k tz] f e by simp
  show "resultOf (callTool tz ''delete_task'' args s w) = errorResult (ErrorText WriteError)"
    using callTool_mutation_unwritable(3) [OF nw, of args s k tz] f e by simp
qed

theorem persistence_failure_counterexample:
  "\<not> writable (exampleWorld exampleDocument False) \<and>
   fst (addTask scenarioTask \<lparr>tasks = []\<rparr> (exampleWorld exampleDocument False)) = Inl WriteError \<and>
   tasks (fst (snd (addTask scenarioTask \<lparr>tasks = []\<rparr> (exampleWorld exampleDocument False)))) \<noteq> [] \<and>
   reported (snd (snd (addTask scenarioTask \<lparr>tasks = []\<rparr> (exampleWorld exampleDocument False)))) = 0"
  by (simp add: addTask_def newDate_def saveTasks_unwritable exampleWorld_def Let_def)

theorem persistence_failures_witness:
  "disk (exampleWorld Invalid True) = Invalid \<and>
   loadTasks \<lparr>tasks = [scenarioTask]\<rparr> (exampleWorld Invalid True)
     = (Inr (), \<lparr>tasks = []\<rparr>, (exampleWorld Invalid True)\<lparr>reported := 1\<rparr>) \<and>
   \<not> writable (exampleWorld exampleDocument False) \<and>
   fst (loadTasks \<lparr>tasks = [scenarioTask]\<rparr> (exampleWorld exampleDocument False)) = Inr () \<and>
   tasks (fst (snd (loadTasks \<lparr>tasks = [scenarioTask]\<rparr> (exampleWorld exampleDocument False)))) = [] \<and>
   reported (snd (snd (loadTasks \<lparr>tasks = [scenarioTask]\<rparr> (exampleWorld exampleDocument False)))) = 1 \<and>
   fst (addTask scenarioTask \<lparr>tasks = [scenarioTask]\<rparr> (exampleWorld exampleDocument False))
     = Inl WriteError \<and>
   length (tasks (fst (snd (addTask scenarioTask \<lparr>tasks = [scenarioTask]\<rparr>
                              (exampleWorld exampleDocument False))))) = 2 \<and>
   updateTaskStatus (Some ''1'') (Some completed) \<lparr>tasks = [scenarioTask]\<rparr>
       (exampleWorld exampleDocument False)
     = (Inl WriteError,
        \<lparr>tasks = [scenarioTask\<lparr>status := Some completed, updatedAt := 1700000000000\<rparr>]\<rparr>,
        (exampleWorld exampleDocument False)\<lparr>nreads := 2\<rparr>) \<and>
   deleteTask (Some ''1'') \<lparr>tasks = [scenarioTask]\<rparr> (exampleWorld exampleDocument False)
     = (Inl WriteError, \<lparr>tasks = []\<rparr>, (exampleWorld exampleDocument False)\<lparr>nreads := 1\<rparr>) \<and>
   resultOf (callTool (\<lambda>t. t) ''delete_task'' (idOnly ''1'') \<lparr>tasks = [scenarioTask]\<rparr>
               (exampleWorld exampleDocument False))
     = errorResult (ErrorText WriteError)"
proof -
  let ?s = "\<lparr>tasks = [scenarioTask]\<rparr>"
  let ?wi = "exampleWorld Invalid True"
  let ?w = "exampleWorld exampleDocument False"
  let ?d = "\<lparr>data_tasks = [scenarioTask], lastUpdated = 1577000000000\<rparr>"
  have i: "disk ?wi = Invalid"
    by (simp add: exampleWorld_def)
  have d: "disk ?w = Document ?d" and nw: "\<not> writable ?w"
    by (simp_all add: exampleWorld_def exampleDocument_def)
  have past: "\<exists>k<length (data_tasks ?d). pastDue (clock ?w (nreads ?w)) (data_tasks ?d ! k)"
    by (simp add: pastDue_def scenarioTask_def exampleWorld_def)
  have found: "\<not> writable ?w \<and> 0 < length (tasks ?s) \<and> Some (id' (tasks ?s ! 0)) = Some ''1'' \<and>
    (\<forall>j<0. Some (id' (tasks ?s ! j)) \<noteq> Some ''1'')"
    using nw by (simp add: scenarioTask_def)
  have ai: "arg_id (idOnly ''1'') = Some ''1''"
    by (simp add: idOnly_def)
  note T = persistence_failures [of _ ?s ?d scenarioTask "\<lambda>t. t" "idOnly ''1''" 0 "Some ''1''"
      "Some completed"]
  have A: "loadTasks ?s ?wi = (Inr (), \<lparr>tasks = []\<rparr>, ?wi\<lparr>reported := 1\<rparr>)"
    using T [of ?wi, THEN conjunct1, rule_format, OF i] by (simp add: exampleWorld_def)
  note B = T [of ?w, THEN conjunct2, THEN conjunct1, rule_format, OF conjI [OF d nw]]
  have B1: "fst (loadTasks ?s ?w) = Inr ()"
    "tasks (fst (snd (loadTasks ?s ?w))) = []"
    "reported (snd (snd (loadTasks ?s ?w))) = 1"
    using B past by (simp_all add: exampleWorld_def)
  note C = T [of ?w, THEN conjunct2, THEN conjunct2, THEN conjunct2, THEN conjunct1,
      rule_format, OF nw]
  have C1: "fst (addTask scenarioTask ?s ?w) = Inl WriteError"
    "length (tasks (fst (snd (addTask scenarioTask ?s ?w)))) = 2"
    using C by simp_all
  note D = T [of ?w, THEN conjunct2, THEN conjunct2, THEN conjunct2, THEN conjunct2,
      rule_format, OF found]
  have D1: "updateTaskStatus (Some ''1'') (Some completed) ?s ?w
     = (Inl WriteError,
        \<lparr>tasks = [scenarioTask\<lparr>status := Some completed, updatedAt := 1700000000000\<rparr>]\<rparr>,
        ?w\<lparr>nreads := 2\<rparr>)"
    using D by (simp add: exampleWorld_def numeral_2_eq_2)
  have D2: "deleteTask (Some ''1'') ?s ?w = (Inl WriteError, \<lparr>tasks = []\<rparr>, ?w\<lparr>nreads := 1\<rparr>)"
    using D by (simp add: exampleWorld_def)
  have D3: "resultOf (callTool (\<lambda>t. t) ''delete_task'' (idOnly ''1'') ?s ?w)
     = errorResult (ErrorText WriteError)"
    using D ai by simp
  show ?thesis
    using i A nw B1 C1 D1 D2 D3 by (intro conjI)
qed

section \<open>Properties of the tool handler\<close>

lemma digitsOf_small: "n < 10 \<Longrightarrow> digitsOf n = [''0123456789'' ! n]"
  by (simp add: digitsOf.simps)

lemma digitsOf_step:
  "10 \<le> n \<Longrightarrow> digitsOf n = digitsOf (n div 10) @ [''0123456789'' ! (n mod 10)]"
  by (subst digitsOf.simps) simp

lemma Number_toString_example: "Number_toString 1700000000000 = ''1700000000000''"
  by (simp add: Number_toString_def digitsOf_step digitsOf_small)

lemma callTool_add_task:
  "callTool tz ''add_task'' (addArgs ti p) s w =
     (case addTask \<lparr>id' = [], title = Some ti, description = None, priority = p, status = Some pending,
                    dueDate = None, tags = None, createdAt = 0, updatedAt = 0\<rparr> s w of
        (Inl e, s1, w1) \<Rightarrow> caught e s1 w1
      | (Inr newTask, s1, w1) \<Rightarrow> Returned (okResult (CreatedText newTask)) s1 w1)"
  by (simp add: callTool_def addArgs_def)

lemma addTask_writable:
  "writable w \<Longrightarrow>
   addTask x s w =
     (let t = x\<lparr>id' := Number_toString (clock w (Suc (nreads w))),
                createdAt := clock w (nreads w), updatedAt := clock w (nreads w)\<rparr>
      in (Inr t, s\<lparr>tasks := tasks s @ [t]\<rparr>,
          w\<lparr>nreads := Suc (Suc (Suc (nreads w))),
            disk := Document \<lparr>data_tasks = tasks s @ [t], lastUpdated = clock w (Suc (Suc (nreads w)))\<rparr>,
            nwrites := Suc (nwrites w)\<rparr>))"
  by (simp add: addTask_def newDate_def saveTasks_def writeFileSync_def Let_def)

lemma add_task_first:
  "callTool tz ''add_task'' (addArgs ti p) s w = c \<Longrightarrow> writable w \<Longrightarrow>
   c = Returned
         (okResult (CreatedText
            \<lparr>id' = Number_toString (clock w (Suc (nreads w))), title = Some ti, description = None,
             priority = p, status = Some pending, dueDate = None, tags = None,
             createdAt = clock w (nreads w), updatedAt = clock w (nreads w)\<rparr>))
         (s\<lparr>tasks := tasks s @
            [\<lparr>id' = Number_toString (clock w (Suc (nreads w))), title = Some ti, description = None,
              priority = p, status = Some pending, dueDate = None, tags = None,
              createdAt = clock w (nreads w), updatedAt = clock w (nreads w)\<rparr>]\<rparr>)
         (w\<lparr>nreads := Suc (Suc (Suc (nreads w))),
            disk := Document
              \<lparr>data_tasks = tasks s @
                 [\<lparr>id' = Number_toString (clock w (Suc (nreads w))), title = Some ti,
                   description = None, priority = p, status = Some pending, dueDate = None,
                   tags = None, createdAt = clock w (nreads w), updatedAt = clock w (nreads w)\<rparr>],
               lastUpdated = clock w (Suc (Suc (nreads w)))\<rparr>,
            nwrites := Suc (nwrites w)\<rparr>)"
  by (simp add: callTool_add_task addTask_writable Let_def)

text \<open>
  Claim C4, at an input where the code departs from it.  The id \<open>addTask\<close> assigns is the
  decimal numeral of \<open>Date.now()\<close>, and nothing compares it with the ids of the collection.
  Two \<open>add_task\<close> calls handled within one millisecond both return a task with status
  pending, and the second task carries the id of the first: the id is not fresh.
\<close>

theorem add_task_id_collision:
  "(let first = callTool (\<lambda>t. t) ''add_task'' (addArgs ''X'' high) \<lparr>tasks = []\<rparr> frozenWorld;
        second = callTool (\<lambda>t. t) ''add_task'' (addArgs ''Y'' low)
                   (storeAfter first) (worldAfter first)
    in map id' (tasks (storeAfter first)) = [''1700000000000''] \<and>
       map id' (tasks (storeAfter second)) = [''1700000000000'', ''1700000000000''] \<and>
       map title (tasks (storeAfter second)) = [Some ''X'', Some ''Y''] \<and>
       (\<exists>t w. second = Returned (okResult (CreatedText t)) (storeAfter second) w \<and>
              id' t \<in> id' ` set (tasks (storeAfter first)) \<and> status t = Some pending))"
proof -
  define first where
    "first = callTool (\<lambda>t. t) ''add_task'' (addArgs ''X'' high) \<lparr>tasks = []\<rparr> frozenWorld"
  define second where
    "second = callTool (\<lambda>t. t) ''add_task'' (addArgs ''Y'' low)
                (storeAfter first) (worldAfter first)"
  have w0: "writable frozenWorld"
    by (simp add: frozenWorld_def exampleWorld_def)
  have c: "clock frozenWorld n = 1700000000000" for n
    by (simp add: frozenWorld_def exampleWorld_def)
  note f = add_task_first [OF first_def [symmetric] w0, unfolded c Number_toString_example]
  have s1: "tasks (storeAfter first) =
      [\<lparr>id' = ''1700000000000'', title = Some ''X'', description = None, priority = high,
        status = Some pending, dueDate = None, tags = None,
        createdAt = 1700000000000, updatedAt = 1700000000000\<rparr>]"
    by (subst f) simp
  have w1: "writable (worldAfter first)"
    by (subst f) (simp add: w0)
  have c1: "clock (worldAfter first) n = 1700000000000" for n
    by (subst f) (simp add: c)
  note g = add_task_first [OF second_def [symmetric] w1, unfolded c1 Number_toString_example s1]
  have s2: "tasks (storeAfter second) =
      [\<lparr>id' = ''1700000000000'', title = Some ''X'', description = None, priority = high,
        status = Some pending, dueDate = None, tags = None,
        createdAt = 1700000000000, updatedAt = 1700000000000\<rparr>,
       \<lparr>id' = ''1700000000000'', title = Some ''Y'', description = None, priority = low,
        status = Some pending, dueDate = None, tags = None,
        createdAt = 1700000000000, updatedAt = 1700000000000\<rparr>]"
    by (subst g) (simp add: s1)
  have r2: "\<exists>t w. second = Returned (okResult (CreatedText t)) (storeAfter second) w \<and>
              id' t \<in> id' ` set (tasks (storeAfter first)) \<and> status t = Some pending"
    by (subst g, subst g) (auto simp: s1 intro!: exI)
  show ?thesis
    unfolding Let_def first_def [symmetric] second_def [symmetric]
    using s1 s2 r2 by simp
qed

lemma callTool_add_task_writable:
  assumes "writable w"
  shows "callTool tz ''add_task'' args s w =
     (let t = \<lparr>id' = Number_toString (clock w (Suc (nreads w))), title = arg_title args,
                description = arg_description args,
                priority = (case arg_priority args of None \<Rightarrow> medium | Some p \<Rightarrow> p),
                status = Some pending, dueDate = arg_dueDate args, tags = arg_tags args,
                createdAt = clock w (nreads w), updatedAt = clock w (nreads w)\<rparr>
      in Returned (okResult (CreatedText t)) (s\<lparr>tasks := tasks s @ [t]\<rparr>)
           (w\<lparr>nreads := Suc (Suc (Suc (nreads w))),
              disk := Document \<lparr>data_tasks = tasks s @ [t],
                                 lastUpdated = clock w (Suc (Suc (nreads w)))\<rparr>,
              nwrites := Suc (nwrites w)\<rparr>))"
  using assms by (simp add: callTool_def addTask_writable Let_def)

lemma addok:
  assumes "arg_priority args = None" "writable w"
  shows "\<exists>t s1 w1. callTool tz ''add_task'' args s w = Returned (okResult (CreatedText t)) s1 w1 \<and>
                  priority t = medium \<and> status t = Some pending \<and> tasks s1 = tasks s @ [t]"
  unfolding callTool_add_task_writable [OF assms(2)] Let_def assms(1)
  by (intro exI conjI) (rule refl, simp_all)

lemma findIndexById_undefined: "findIndexById None ts = None"
  by (induction ts) simp_all

lemma findById_undefined: "findById None ts = None"
  by (induction ts) (simp_all add: findById_def)

lemma unknown_tool:
  "name \<notin> set toolNames \<Longrightarrow>
   callTool tz name args s w = Returned (errorResult (UnknownToolText name)) s w"
  by (simp add: toolNames_def callTool_def)

lemma no_id_update:
  "arg_id args = None \<Longrightarrow>
   callTool tz ''update_task_status'' args s w = Returned (errorResult NotFoundText) s w"
  by (simp add: callTool_def updateTaskStatus_def findIndexById_undefined)

lemma no_id_delete:
  "arg_id args = None \<Longrightarrow>
   callTool tz ''delete_task'' args s w = Returned (errorResult NotFoundText) s w"
  by (simp add: callTool_def deleteTask_def findIndexById_undefined errorResult_def)

lemma no_id_get:
  "arg_id args = None \<Longrightarrow> errorFlagged (callTool tz ''get_task_by_id'' args s w)"
  by (cases "reloadTasks s w" rule: prod_cases3)
     (simp add: callTool_def getTaskById_def findById_undefined caught_def errorResult_def
        split: sum.splits)

lemma reload_raises:
  assumes "reloadTasks s w = (Inl e, s1, w1)"
  shows "callTool tz ''get_tasks'' args s w = Returned (errorResult (ErrorText e)) s1 w1"
    "callTool tz ''get_task_summary'' args s w = Returned (errorResult (ErrorText e)) s1 w1"
    "callTool tz ''get_task_by_id'' args s w = Returned (errorResult (ErrorText e)) s1 w1"
    "callTool tz ''get_overdue_tasks'' args s w = Returned (errorResult (ErrorText e)) s1 w1"
    "callTool tz ''get_today_tasks'' args s w = Returned (errorResult (ErrorText e)) s1 w1"
  using assms
  by (simp_all add: callTool_def caught_def getTasks_def getSummary_def getTaskById_def Let_def)

lemma reading_tool_raises:
  assumes "name \<in> set readingTools" and "reloadTasks s w = (Inl e, s1, w1)"
  shows "callTool tz name args s w = Returned (errorResult (ErrorText e)) s1 w1"
proof -
  from assms(1) have "name = ''get_tasks'' \<or> name = ''get_task_summary'' \<or>
      name = ''get_task_by_id'' \<or> name = ''get_overdue_tasks'' \<or> name = ''get_today_tasks''"
    by (simp add: readingTools_def)
  then show ?thesis
    using reload_raises [OF assms(2), of tz args] by (elim disjE) simp_all
qed

text \<open>
  Claim C5, amended.  Every call of the handler returns a tool result; nothing is thrown past
  it.  An unknown tool name gives an error-flagged result naming the tool, with the store
  untouched.  \<open>get_task_by_id\<close>, \<open>update_task_status\<close> and \<open>delete_task\<close> without an id
  give an error-flagged result (for the last two "not found", with the store untouched).
  An exception of the store is caught in every tool and returned as an error-flagged result
  carrying it: the exception of the reload in the five tools that read, the exception of the
  save in the three that write.  An \<open>add_task\<close> call that carries a title and no priority
  is not an error: the task is created with priority medium and status pending.  The
  counterexample to the claim as stated is that call: a required argument is missing and the
  result is not error-flagged.
\<close>

theorem callTool_error_results:
  "(\<exists>res s1 w1. callTool tz name args s w = Returned res s1 w1) \<and>
   (name \<notin> set toolNames \<longrightarrow>
      callTool tz name args s w = Returned (errorResult (UnknownToolText name)) s w) \<and>
   (name \<in> {''get_task_by_id'', ''update_task_status'', ''delete_task''} \<and> arg_id args = None \<longrightarrow>
      errorFlagged (callTool tz name args s w)) \<and>
   (name \<in> {''update_task_status'', ''delete_task''} \<and> arg_id args = None \<longrightarrow>
      callTool tz name args s w = Returned (errorResult NotFoundText) s w) \<and>
   (name \<in> set readingTools \<and> reloadTasks s w = (Inl e, s1, w1) \<longrightarrow>
      callTool tz name args s w = Returned (errorResult (ErrorText e)) s1 w1) \<and>
   (\<not> writable w \<longrightarrow>
      resultOf (callTool tz ''add_task'' args s w) = errorResult (ErrorText WriteError)) \<and>
   (\<not> writable w \<and> arg_id args \<in> Some ` id' ` set (tasks s) \<longrightarrow>
      resultOf (callTool tz ''update_task_status'' args s w) = errorResult (ErrorText WriteError) \<and>
      resultOf (callTool tz ''delete_task'' args s w) = errorResult (ErrorText WriteError)) \<and>
   (name = ''add_task'' \<and> arg_title args \<noteq> None \<and> arg_priority args = None \<and> writable w \<longrightarrow>
      (\<exists>t s1 w1. callTool tz name args s w = Returned (okResult (CreatedText t)) s1 w1 \<and>
                  priority t = medium \<and> status t = Some pending \<and> tasks s1 = tasks s @ [t]))"
proof (intro conjI impI)
  show "\<exists>res s1 w1. callTool tz name args s w = Returned res s1 w1"
    by (cases "callTool tz name args s w") auto
next
  assume "name \<notin> set toolNames"
  then show "callTool tz name args s w = Returned (errorResult (UnknownToolText name)) s w"
    by (rule unknown_tool)
next
  assume "name \<in> {''get_task_by_id'', ''update_task_status'', ''delete_task''} \<and> arg_id args = None"
  then show "errorFlagged (callTool tz name args s w)"
    using no_id_get [of args tz s w] no_id_update [of args tz s w] no_id_delete [of args tz s w]
    by (auto simp: errorResult_def)
next
  assume "name \<in> {''update_task_status'', ''delete_task''} \<and> arg_id args = None"
  then show "callTool tz name args s w = Returned (errorResult NotFoundText) s w"
    using no_id_update [of args tz s w] no_id_delete [of args tz s w] by auto
next
  assume "name \<in> set readingTools \<and> reloadTasks s w = (Inl e, s1, w1)"
  then show "callTool tz name args s w = Returned (errorResult (ErrorText e)) s1 w1"
    using reading_tool_raises by blast
next
  assume "\<not> writable w"
  then show "resultOf (callTool tz ''add_task'' args s w) = errorResult (ErrorText WriteError)"
    by (rule callTool_mutation_unwritable(1))
next
  assume a: "\<not> writable w \<and> arg_id args \<in> Some ` id' ` set (tasks s)"
  then obtain k where k: "findIndexById (arg_id args) (tasks s) = Some k"
    using findIndexById_None [of "arg_id args" "tasks s"]
    by (cases "findIndexById (arg_id args) (tasks s)") auto
  show "resultOf (callTool tz ''update_task_status'' args s w) = errorResult (ErrorText WriteError)"
    using callTool_mutation_unwritable(2) [OF _ k] a by simp
  show "resultOf (callTool tz ''delete_task'' args s w) = errorResult (ErrorText WriteError)"
    using callTool_mutation_unwritable(3) [OF _ k] a by simp
next
  assume "name = ''add_task'' \<and> arg_title args \<noteq> None \<and> arg_priority args = None \<and> writable w"
  then show "\<exists>t s1 w1. callTool tz name args s w = Returned (okResult (CreatedText t)) s1 w1 \<and>
                  priority t = medium \<and> status t = Some pending \<and> tasks s1 = tasks s @ [t]"
    using addok [of args w tz s] by simp
qed

theorem missing_argument_counterexample:
  "arg_priority (titleOnly ''X'') = None \<and>
   \<not> errorFlagged (callTool (\<lambda>t. t) ''add_task'' (titleOnly ''X'') \<lparr>tasks = []\<rparr>
                      (exampleWorld exampleDocument True)) \<and>
   map priority (tasks (storeAfter (callTool (\<lambda>t. t) ''add_task'' (titleOnly ''X'') \<lparr>tasks = []\<rparr>
                      (exampleWorld exampleDocument True)))) = [medium]"
proof -
  have p: "arg_priority (titleOnly ''X'') = None"
    by (simp add: titleOnly_def)
  have w: "writable (exampleWorld exampleDocument True)"
    by (simp add: exampleWorld_def)
  show ?thesis
    unfolding callTool_add_task_writable [OF w]
    by (simp add: p Let_def okResult_def)
qed

theorem callTool_error_results_witness:
  "''no_such_tool'' \<notin> set toolNames \<and>
   callTool (\<lambda>t. t) ''no_such_tool'' (titleOnly ''X'') \<lparr>tasks = [scenarioTask]\<rparr>
       (exampleWorld exampleDocument True)
     = Returned (errorResult (UnknownToolText ''no_such_tool'')) \<lparr>tasks = [scenarioTask]\<rparr>
         (exampleWorld exampleDocument True) \<and>
   arg_id (titleOnly ''X'') = None \<and>
   errorFlagged (callTool (\<lambda>t. t) ''get_task_by_id'' (titleOnly ''X'') \<lparr>tasks = [scenarioTask]\<rparr>
                   (exampleWorld exampleDocument True)) \<and>
   callTool (\<lambda>t. t) ''delete_task'' (titleOnly ''X'') \<lparr>tasks = [scenarioTask]\<rparr>
       (exampleWorld exampleDocument True)
     = Returned (errorResult NotFoundText) \<lparr>tasks = [scenarioTask]\<rparr>
         (exampleWorld exampleDocument True) \<and>
   ''get_tasks'' \<in> set readingTools \<and>
   reloadTasks \<lparr>tasks = [scenarioTask]\<rparr> (exampleWorld Missing False)
     = (Inl WriteError, \<lparr>tasks = [scenarioTask]\<rparr>, (exampleWorld Missing False)\<lparr>nreads := 1\<rparr>) \<and>
   callTool (\<lambda>t. t) ''get_tasks'' (titleOnly ''X'') \<lparr>tasks = [scenarioTask]\<rparr>
       (exampleWorld Missing False)
     = Returned (errorResult (ErrorText WriteError)) \<lparr>tasks = [scenarioTask]\<rparr>
         ((exampleWorld Missing False)\<lparr>nreads := 1\<rparr>) \<and>
   \<not> writable (exampleWorld exampleDocument False) \<and>
   errorFlagged (callTool (\<lambda>t. t) ''add_task'' (titleOnly ''X'') \<lparr>tasks = [scenarioTask]\<rparr>
                   (exampleWorld exampleDocument False)) \<and>
   arg_id (idOnly ''1'') \<in> Some ` id' ` set (tasks \<lparr>tasks = [scenarioTask]\<rparr>) \<and>
   errorFlagged (callTool (\<lambda>t. t) ''update_task_status'' (idOnly ''1'') \<lparr>tasks = [scenarioTask]\<rparr>
                   (exampleWorld exampleDocument False)) \<and>
   writable (exampleWorld exampleDocument True) \<and>
   \<not> errorFlagged (callTool (\<lambda>t. t) ''add_task'' (titleOnly ''X'') \<lparr>tasks = [scenarioTask]\<rparr>
                     (exampleWorld exampleDocument True))"
proof -
  let ?s = "\<lparr>tasks = [scenarioTask]\<rparr>"
  let ?w = "exampleWorld exampleDocument True"
  let ?u = "exampleWorld exampleDocument False"
  let ?m = "exampleWorld Missing False"
  let ?a = "titleOnly ''X''"
  have n: "''no_such_tool'' \<notin> set toolNames"
    by (simp add: toolNames_def)
  have i: "arg_id ?a = None" and p: "arg_priority ?a = None" and t: "arg_title ?a \<noteq> None"
    by (simp_all add: titleOnly_def)
  have w: "writable ?w" and u: "\<not> writable ?u"
    by (simp_all add: exampleWorld_def)
  have m: "''get_task_by_id'' \<in> {''get_task_by_id'', ''update_task_status'', ''delete_task''}"
    "''delete_task'' \<in> {''update_task_status'', ''delete_task''}"
    by simp_all
  have rt: "''get_tasks'' \<in> set readingTools"
    by (simp add: readingTools_def)
  have rl: "reloadTasks ?s ?m = (Inl WriteError, ?s, ?m\<lparr>nreads := 1\<rparr>)"
    by (simp add: reloadTasks_def loadTasks_def createSampleTasks_def newDate_def
        writeFileSync_def exampleWorld_def)
  have mem: "arg_id (idOnly ''1'') \<in> Some ` id' ` set (tasks ?s)"
    by (simp add: idOnly_def scenarioTask_def)
  note T = callTool_error_results
  have 1: "callTool (\<lambda>t. t) ''no_such_tool'' ?a ?s ?w
             = Returned (errorResult (UnknownToolText ''no_such_tool'')) ?s ?w"
    by (rule T [THEN conjunct2, THEN conjunct1, rule_format, OF n])
  have 2: "errorFlagged (callTool (\<lambda>t. t) ''get_task_by_id'' ?a ?s ?w)"
    by (rule T [THEN conjunct2, THEN conjunct2, THEN conjunct1, rule_format,
          OF conjI [OF m(1) i]])
  have 3: "callTool (\<lambda>t. t) ''delete_task'' ?a ?s ?w = Returned (errorResult NotFoundText) ?s ?w"
    by (rule T [THEN conjunct2, THEN conjunct2, THEN conjunct2, THEN conjunct1, rule_format,
          OF conjI [OF m(2) i]])
  have 4: "callTool (\<lambda>t. t) ''get_tasks'' ?a ?s ?m
             = Returned (errorResult (ErrorText WriteError)) ?s (?m\<lparr>nreads := 1\<rparr>)"
    by (rule T [THEN conjunct2, THEN conjunct2, THEN conjunct2, THEN conjunct2, THEN conjunct1,
          rule_format, OF conjI [OF rt rl]])
  have "resultOf (callTool (\<lambda>t. t) ''add_task'' ?a ?s ?u) = errorResult (ErrorText WriteError)"
    by (rule T [THEN conjunct2, THEN conjunct2, THEN conjunct2, THEN conjunct2, THEN conjunct2,
          THEN conjunct1, rule_format, OF u])
  then have 5: "errorFlagged (callTool (\<lambda>t. t) ''add_task'' ?a ?s ?u)"
    by (cases "callTool (\<lambda>t. t) ''add_task'' ?a ?s ?u") (simp add: errorResult_def)
  have "resultOf (callTool (\<lambda>t. t) ''update_task_status'' (idOnly ''1'') ?s ?u)
          = errorResult (ErrorText WriteError)"
    using T [of "\<lambda>t. t" _ "idOnly ''1''" ?s ?u, THEN conjunct2, THEN conjunct2, THEN conjunct2,
          THEN conjunct2, THEN conjunct2, THEN conjunct2, THEN conjunct1, rule_format,
          OF conjI [OF u mem]]
    by simp
  then have 6: "errorFlagged (callTool (\<lambda>t. t) ''update_task_status'' (idOnly ''1'') ?s ?u)"
    by (cases "callTool (\<lambda>t. t) ''update_task_status'' (idOnly ''1'') ?s ?u")
       (simp add: errorResult_def)
  have "\<exists>t s1 w1. callTool (\<lambda>t. t) ''add_task'' ?a ?s ?w
                    = Returned (okResult (CreatedText t)) s1 w1 \<and>
                  priority t = medium \<and> status t = Some pending \<and> tasks s1 = tasks ?s @ [t]"
    by (rule T [THEN conjunct2, THEN conjunct2, THEN conjunct2, THEN conjunct2, THEN conjunct2,
          THEN conjunct2, THEN conjunct2, rule_format,
          OF conjI [OF refl conjI [OF t conjI [OF p w]]]])
  then have 7: "\<not> errorFlagged (callTool (\<lambda>t. t) ''add_task'' ?a ?s ?w)"
    by (auto simp: okResult_def)
  show ?thesis
    using n 1 i 2 3 rt rl 4 u 5 mem 6 w 7 by (intro conjI)
qed

section \<open>Properties of the client\<close>

lemma pendingEntry_None:
  "pendingEntry c idv = None \<longleftrightarrow> (\<forall>n. idv = Some (JNum (int n)) \<longrightarrow> pendingRequests c n = None)"
proof (cases idv)
  case None
  then show ?thesis by (simp add: pendingEntry_def)
next
  case (Some v)
  show ?thesis
  proof (cases v)
    case (JNum n)
    show ?thesis
    proof (cases "0 \<le> n")
      case True
      then have "int (nat n) = n" by simp
      then show ?thesis
        using Some JNum True by (auto simp: pendingEntry_def)
    next
      case False
      then show ?thesis
        using Some JNum by (auto simp: pendingEntry_def)
    qed
  qed (simp_all add: Some pendingEntry_def)
qed

lemma outcomes_append:
  "outcomes i (r\<lparr>effects := effects r @ es\<rparr>) = outcomes i r @ filter (outcomeOf i) es"
  by (simp add: outcomes_def)

text \<open>
  Claim C10.  A line that parses to a message whose \<open>id\<close> is not a key of the pending table
  (no \<open>id\<close> at all, as in a notification; an \<open>id\<close> that is not a number; the \<open>id\<close> of a
  request that is not, or no longer, pending) changes nothing: the fields of the client and
  the armed timers are as before, the only effects added are lines of the console log, so no
  promise is resolved or rejected and nothing is written to the subprocess.
\<close>

theorem unmatched_message_noop:
  assumes parsed: "parse line = Some message"
    and unmatched: "\<forall>n. getProp message ''id'' = Some (JNum (int n)) \<longrightarrow> pendingRequests c n = None"
    and result: "handleLine parse line (c, r) = (c', r')"
  shows "c' = c \<and> timers r' = timers r \<and>
         effects r' = effects r @ LogResponse message #
                        (if message = JNull then [LogParseError line] else []) \<and>
         (\<forall>i. outcomes i r' = outcomes i r) \<and>
         (\<forall>q. StdinWrite q \<in> set (effects r') \<longrightarrow> StdinWrite q \<in> set (effects r))"
proof -
  have e: "pendingEntry c (getProp message ''id'') = None"
    using unmatched by (simp add: pendingEntry_None)
  have r': "r' = r\<lparr>effects := effects r @ LogResponse message #
                        (if message = JNull then [LogParseError line] else [])\<rparr>"
    and c': "c' = c"
    using result parsed e by (auto simp: handleLine_def Let_def split: if_splits)
  show ?thesis
    unfolding r' c' by (auto simp: outcomes_def)
qed

theorem unmatched_message_noop_witness:
  "exampleParse notificationLine = Some notificationMessage \<and>
   getProp notificationMessage ''id'' = None \<and>
   fst (handleLine exampleParse notificationLine (run exampleParse [Send ''tools/list'' None] (newClient True)))
     = fst (run exampleParse [Send ''tools/list'' None] (newClient True)) \<and>
   effects (snd (handleLine exampleParse notificationLine
                   (run exampleParse [Send ''tools/list'' None] (newClient True))))
     = effects (snd (run exampleParse [Send ''tools/list'' None] (newClient True)))
         @ [LogResponse notificationMessage] \<and>
   outcomes 1 (snd (handleLine exampleParse notificationLine
                      (run exampleParse [Send ''tools/list'' None] (newClient True)))) = []"
proof -
  let ?cr = "run exampleParse [Send ''tools/list'' None] (newClient True)"
  have p: "exampleParse notificationLine = Some notificationMessage"
    by (simp add: exampleParse_def notificationLine_def responseHead_def responseTail_def)
  have g: "getProp notificationMessage ''id'' = None"
    by (simp add: notificationMessage_def)
  have u: "\<forall>n. getProp notificationMessage ''id'' = Some (JNum (int n)) \<longrightarrow>
             pendingRequests (fst ?cr) n = None"
    by (simp add: g)
  have h: "handleLine exampleParse notificationLine (fst ?cr, snd ?cr)
             = (fst (handleLine exampleParse notificationLine ?cr),
                snd (handleLine exampleParse notificationLine ?cr))"
    by simp
  have n: "notificationMessage \<noteq> JNull"
    by (simp add: notificationMessage_def)
  have o: "outcomes 1 (snd ?cr) = []"
    by (simp add: newClient_def sendRequest_def outcomes_def)
  show ?thesis
    using unmatched_message_noop [OF p u h] p g n o by simp
qed

lemma splitLines_nonempty [simp]: "splitLines xs \<noteq> []"
  by (induction xs) (auto split: list.splits)

lemma splitLines_append:
  "splitLines (xs @ ys) = butlast (splitLines xs) @ splitLines (last (splitLines xs) @ ys)"
proof (induction xs)
  case Nil
  then show ?case by simp
next
  case (Cons c cs)
  show ?case
  proof (cases "c = newline")
    case True
    then show ?thesis using Cons by simp
  next
    case False
    show ?thesis
    proof (cases "splitLines cs")
      case Nil
      then show ?thesis by simp
    next
      case (Cons m ms)
      then show ?thesis
        using False Cons.IH by (cases ms) (auto split: list.splits)
    qed
  qed
qed

lemma splitLines_no_newline: "l \<in> set (splitLines xs) \<Longrightarrow> newline \<notin> set l"
  by (induction xs arbitrary: l) (auto split: if_splits list.splits)

lemma splitLines_join:
  "concat (map (\<lambda>l. l @ [newline]) (butlast (splitLines xs))) @ last (splitLines xs) = xs"
proof (induction xs)
  case Nil
  then show ?case by simp
next
  case (Cons c cs)
  show ?case
  proof (cases "splitLines cs")
    case Nil
    then show ?thesis by simp
  next
    case (Cons m ms)
    then show ?thesis
      using Cons.IH by (cases ms) (auto split: list.splits)
  qed
qed

lemma splitLines_plain: "newline \<notin> set l \<Longrightarrow> splitLines l = [l]"
  by (induction l) auto

lemma handleLines_append:
  "handleLines parse (ls1 @ ls2) cr = handleLines parse ls2 (handleLines parse ls1 cr)"
  by (induction ls1 arbitrary: cr) simp_all

lemma handleLine_buffer:
  "handleLine parse line (c\<lparr>buffer := b\<rparr>, r) =
     (case handleLine parse line (c, r) of (c', r') \<Rightarrow> (c'\<lparr>buffer := b\<rparr>, r'))"
  by (simp add: handleLine_def pendingEntry_def Let_def split: option.splits json.splits)

lemma handleLines_buffer:
  "handleLines parse ls (c\<lparr>buffer := b\<rparr>, r) =
     (case handleLines parse ls (c, r) of (c', r') \<Rightarrow> (c'\<lparr>buffer := b\<rparr>, r'))"
proof (induction ls arbitrary: c r)
  case Nil
  then show ?case by simp
next
  case (Cons l ls)
  obtain c1 r1 where h: "handleLine parse l (c, r) = (c1, r1)"
    by (cases "handleLine parse l (c, r)")
  show ?case
    using Cons [of c1 r1] Cons [of c r] h by (simp add: handleLine_buffer)
qed

lemma onData_eq:
  "onData parse chunk (c, r) =
     (case handleLines parse (butlast (splitLines (buffer c @ chunk))) (c, r) of
        (c', r') \<Rightarrow> (c'\<lparr>buffer := last (splitLines (buffer c @ chunk))\<rparr>, r'))"
proof -
  have "(c\<lparr>buffer := buffer c @ chunk\<rparr>)\<lparr>buffer := b\<rparr> = c\<lparr>buffer := b\<rparr>" for b
    by simp
  then show ?thesis
    by (simp add: onData_def processBuffer_def Let_def handleLines_buffer split: prod.splits)
qed

lemma handleLine_logs:
  "responses (snd (handleLine parse line cr)) =
     responses (snd cr) @ (case parse line of None \<Rightarrow> [] | Some m \<Rightarrow> [m])"
  "parseErrors (snd (handleLine parse line cr)) =
     parseErrors (snd cr) @ (if parse line = None \<or> parse line = Some JNull then [line] else [])"
  by (cases cr;
      auto simp: handleLine_def responses_def parseErrors_def map_filter_simps settle_def Let_def
        List.map_filter_def split: option.splits)+

lemma handleLines_logs:
  "responses (snd (handleLines parse ls cr)) =
     responses (snd cr) @ List.map_filter parse (filter trimmedNonEmpty ls)"
  "parseErrors (snd (handleLines parse ls cr)) =
     parseErrors (snd cr) @
       filter (\<lambda>l. parse l = None \<or> parse l = Some JNull) (filter trimmedNonEmpty ls)"
  by (induction ls arbitrary: cr;
      auto simp: handleLine_logs List.map_filter_def split: option.splits)+

lemma splitLines_one_line: "newline \<notin> set l \<Longrightarrow> splitLines (l @ [newline]) = [l, []]"
  by (induction l) auto

lemma onData_chunks:
  "onData parse c2 (onData parse c1 cr) = onData parse (c1 @ c2) cr"
proof -
  obtain c r where cr: "cr = (c, r)"
    by (cases cr)
  let ?S = "splitLines (buffer c @ c1)"
  let ?T = "splitLines (last ?S @ c2)"
  obtain c' r' where h1: "handleLines parse (butlast ?S) (c, r) = (c', r')"
    by (cases "handleLines parse (butlast ?S) (c, r)")
  obtain c'' r'' where h2: "handleLines parse (butlast ?T) (c', r') = (c'', r'')"
    by (cases "handleLines parse (butlast ?T) (c', r')")
  have sp: "splitLines (buffer c @ c1 @ c2) = butlast ?S @ ?T"
    using splitLines_append [of "buffer c @ c1" c2] by simp
  have bl: "butlast (splitLines (buffer c @ c1 @ c2)) = butlast ?S @ butlast ?T"
    "last (splitLines (buffer c @ c1 @ c2)) = last ?T"
    by (simp_all add: sp butlast_append)
  have left: "onData parse c2 (onData parse c1 cr) = (c''\<lparr>buffer := last ?T\<rparr>, r'')"
    by (simp add: cr onData_eq h1 handleLines_buffer h2)
  have right: "onData parse (c1 @ c2) cr = (c''\<lparr>buffer := last ?T\<rparr>, r'')"
    by (simp add: cr onData_eq bl handleLines_append h1 h2)
  show ?thesis
    by (simp add: left right)
qed

text \<open>
  Claim C3, amended.  Feeding two chunks one after the other is feeding their concatenation:
  the data after the last newline waits in the buffer, so a chunk may end anywhere.  The
  pieces \<open>split\<close> gives hold no newline and, each complete line followed by a newline and
  then the buffered rest, make up the text received.  A chunk adds to the log, in order, one
  response per complete line that is not blank and parses, and one parse error per complete
  line that is not blank and does not parse (or parses to \<open>null\<close>); lines after such a
  line are handled all the same, and a blank line adds nothing: it is neither parsed nor
  logged, which is where the claim as stated fails (the counterexample is an empty line).
  The last part is the scenario of the specification: a line delivered in two chunks, the
  second ending in the newline, gives one message and no parse error.
\<close>

theorem framer_lines:
  "onData parse c2 (onData parse c1 cr) = onData parse (c1 @ c2) cr \<and>
   concat (map (\<lambda>l. l @ [newline]) (butlast (splitLines s))) @ last (splitLines s) = s \<and>
   (\<forall>l\<in>set (splitLines s). newline \<notin> set l) \<and>
   buffer (fst (onData parse chunk (c, r))) = last (splitLines (buffer c @ chunk)) \<and>
   responses (snd (onData parse chunk (c, r))) =
     responses r @
       List.map_filter parse (filter trimmedNonEmpty (butlast (splitLines (buffer c @ chunk)))) \<and>
   parseErrors (snd (onData parse chunk (c, r))) =
     parseErrors r @
       filter (\<lambda>l. parse l = None \<or> parse l = Some JNull)
         (filter trimmedNonEmpty (butlast (splitLines (buffer c @ chunk)))) \<and>
   (buffer c = [] \<and> newline \<notin> set (h1 @ h2) \<and> trimmedNonEmpty (h1 @ h2) \<and>
    parse (h1 @ h2) = Some m \<and> m \<noteq> JNull \<longrightarrow>
      onData parse h1 (c, r) = (c\<lparr>buffer := h1\<rparr>, r) \<and>
      buffer (fst (onData parse (h2 @ [newline]) (onData parse h1 (c, r)))) = [] \<and>
      responses (snd (onData parse (h2 @ [newline]) (onData parse h1 (c, r)))) = responses r @ [m] \<and>
      parseErrors (snd (onData parse (h2 @ [newline]) (onData parse h1 (c, r)))) = parseErrors r)"
proof (intro conjI impI ballI)
  show "onData parse c2 (onData parse c1 cr) = onData parse (c1 @ c2) cr"
    by (rule onData_chunks)
next
  show "concat (map (\<lambda>l. l @ [newline]) (butlast (splitLines s))) @ last (splitLines s) = s"
    by (rule splitLines_join)
next
  fix l assume "l \<in> set (splitLines s)"
  then show "newline \<notin> set l"
    by (rule splitLines_no_newline)
next
  show "buffer (fst (onData parse chunk (c, r))) = last (splitLines (buffer c @ chunk))"
    by (simp add: onData_eq split: prod.splits)
next
  show "responses (snd (onData parse chunk (c, r))) =
     responses r @
       List.map_filter parse (filter trimmedNonEmpty (butlast (splitLines (buffer c @ chunk))))"
    using handleLines_logs(1) [of parse "butlast (splitLines (buffer c @ chunk))" "(c, r)"]
    by (cases "handleLines parse (butlast (splitLines (buffer c @ chunk))) (c, r)")
       (simp add: onData_eq)
next
  show "parseErrors (snd (onData parse chunk (c, r))) =
     parseErrors r @
       filter (\<lambda>l. parse l = None \<or> parse l = Some JNull)
         (filter trimmedNonEmpty (butlast (splitLines (buffer c @ chunk))))"
    using handleLines_logs(2) [of parse "butlast (splitLines (buffer c @ chunk))" "(c, r)"]
    by (cases "handleLines parse (butlast (splitLines (buffer c @ chunk))) (c, r)")
       (simp add: onData_eq)
next
  assume a: "buffer c = [] \<and> newline \<notin> set (h1 @ h2) \<and> trimmedNonEmpty (h1 @ h2) \<and>
    parse (h1 @ h2) = Some m \<and> m \<noteq> JNull"
  then have n1: "newline \<notin> set h1" and n: "newline \<notin> set (h1 @ h2)"
    by auto
  show first: "onData parse h1 (c, r) = (c\<lparr>buffer := h1\<rparr>, r)"
    using a by (simp add: onData_eq splitLines_plain [OF n1])
  have both: "onData parse (h2 @ [newline]) (onData parse h1 (c, r))
                = onData parse ((h1 @ h2) @ [newline]) (c, r)"
    by (simp add: onData_chunks)
  have sp: "splitLines (buffer c @ (h1 @ h2) @ [newline]) = [h1 @ h2, []]"
    using a splitLines_one_line [OF n] by simp
  obtain c' r' where h: "handleLine parse (h1 @ h2) (c, r) = (c', r')"
    by (cases "handleLine parse (h1 @ h2) (c, r)")
  have lg: "responses r' = responses r @ [m]" "parseErrors r' = parseErrors r"
    using handleLine_logs [of parse "h1 @ h2" "(c, r)"] a h by simp_all
  have res: "onData parse ((h1 @ h2) @ [newline]) (c, r) = (c'\<lparr>buffer := []\<rparr>, r')"
    unfolding onData_eq sp using a h by simp
  show "buffer (fst (onData parse (h2 @ [newline]) (onData parse h1 (c, r)))) = []"
    unfolding both res by simp
  show "responses (snd (onData parse (h2 @ [newline]) (onData parse h1 (c, r)))) = responses r @ [m]"
    unfolding both res by (simp add: lg)
  show "parseErrors (snd (onData parse (h2 @ [newline]) (onData parse h1 (c, r)))) = parseErrors r"
    unfolding both res by (simp add: lg)
qed

theorem blank_line_counterexample:
  "\<not> trimmedNonEmpty [] \<and> exampleParse [] = None \<and>
   (\<forall>parse. onData parse [newline] (newClient True) = newClient True) \<and>
   parseErrors (snd (onData exampleParse [newline] (newClient True))) = [] \<and>
   responses (snd (onData exampleParse [newline] (newClient True))) = []"
proof -
  have s: "splitLines [newline] = [[], []]"
    by simp
  have o: "onData parse [newline] (newClient True) = newClient True" for parse
    by (simp add: onData_def processBuffer_def newClient_def s trimmedNonEmpty_def Let_def)
  have p: "exampleParse [] = None"
    by (simp add: exampleParse_def responseHead_def notificationLine_def)
  show ?thesis
    using o p by (simp add: trimmedNonEmpty_def newClient_def parseErrors_def responses_def
        List.map_filter_def)
qed

theorem framer_lines_witness:
  "buffer (fst (newClient True)) = [] \<and>
   newline \<notin> set (responseHead @ responseTail) \<and>
   trimmedNonEmpty (responseHead @ responseTail) \<and>
   exampleParse (responseHead @ responseTail) = Some responseMessage \<and>
   responseMessage \<noteq> JNull \<and>
   onData exampleParse responseHead (newClient True)
     = ((fst (newClient True))\<lparr>buffer := responseHead\<rparr>, snd (newClient True)) \<and>
   buffer (fst (onData exampleParse (responseTail @ [newline])
                  (onData exampleParse responseHead (newClient True)))) = [] \<and>
   responses (snd (onData exampleParse (responseTail @ [newline])
                     (onData exampleParse responseHead (newClient True)))) = [responseMessage] \<and>
   parseErrors (snd (onData exampleParse (responseTail @ [newline])
                       (onData exampleParse responseHead (newClient True)))) = []"
proof -
  have b: "buffer (fst (newClient True)) = []"
    by (simp add: newClient_def)
  have n: "newline \<notin> set (responseHead @ responseTail)"
    by (simp add: responseHead_def responseTail_def newline_def)
  have t: "trimmedNonEmpty (responseHead @ responseTail)"
    by (simp add: trimmedNonEmpty_def responseHead_def isWhiteSpace_def)
  have p: "exampleParse (responseHead @ responseTail) = Some responseMessage"
    by (simp add: exampleParse_def)
  have m: "responseMessage \<noteq> JNull"
    by (simp add: responseMessage_def)
  have e: "responses (snd (newClient True)) = []" "parseErrors (snd (newClient True)) = []"
    by (simp_all add: newClient_def responses_def parseErrors_def List.map_filter_def)
  note T = framer_lines [of exampleParse _ _ _ _ _ "fst (newClient True)" "snd (newClient True)"
      responseHead responseTail responseMessage,
      THEN conjunct2, THEN conjunct2, THEN conjunct2, THEN conjunct2, THEN conjunct2,
      THEN conjunct2, rule_format, OF conjI [OF b conjI [OF n conjI [OF t conjI [OF p m]]]]]
  have r1: "onData exampleParse responseHead (newClient True)
     = ((fst (newClient True))\<lparr>buffer := responseHead\<rparr>, snd (newClient True))"
    using T [THEN conjunct1] by simp
  have r2: "buffer (fst (onData exampleParse (responseTail @ [newline])
                  (onData exampleParse responseHead (newClient True)))) = []"
    using T [THEN conjunct2, THEN conjunct1] by simp
  have r3: "responses (snd (onData exampleParse (responseTail @ [newline])
                     (onData exampleParse responseHead (newClient True)))) = [responseMessage]"
    using T [THEN conjunct2, THEN conjunct2, THEN conjunct1] by (simp add: e)
  have r4: "parseErrors (snd (onData exampleParse (responseTail @ [newline])
                       (onData exampleParse responseHead (newClient True)))) = []"
    using T [THEN conjunct2, THEN conjunct2, THEN conjunct2] by (simp add: e)
  show ?thesis
    by (intro conjI) (rule b n t p m r1 r2 r3 r4)+
qed

lemma clientInvI:
  assumes "messageId c = length ms"
    and "\<And>j p. pendingRequests c j = Some p \<Longrightarrow>
           p = j \<and> 1 \<le> j \<and> j \<le> length ms \<and> j \<in> fst ` set (timers r)"
    and "\<And>j. length (outcomes j r) =
           (if 1 \<le> j \<and> j \<le> length ms \<and> pendingRequests c j = None then 1 else 0)"
    and "\<And>j n. (j, n) \<in> set (timers r) \<Longrightarrow> 1 \<le> j \<and> j \<le> length ms \<and> ms ! (j - 1) = n"
    and "\<And>j n. Reject j (RequestTimeout n) \<in> set (effects r) \<Longrightarrow>
           1 \<le> j \<and> j \<le> length ms \<and> ms ! (j - 1) = n"
  shows "clientInv ms c r"
  unfolding clientInv_def
  apply (intro conjI)
      apply (rule assms(1))
     apply (intro allI impI, erule assms(2))
    apply (intro allI, rule assms(3))
   apply (intro allI impI, erule assms(4))
  apply (intro allI impI, erule assms(5))
  done

lemma outcomeOf_settle: "outcomeOf i (settle p message) = (p = i)"
  by (simp add: settle_def split: option.splits)

lemma settle_not_timeout: "settle p message \<noteq> Reject i (RequestTimeout m)"
  by (simp add: settle_def split: option.splits)

lemma timeout_not_settle: "Reject i (RequestTimeout m) \<noteq> settle p message"
  by (simp add: settle_def split: option.splits)

lemma nth_in_remove_nth:
  assumes "q < length xs" and "q \<noteq> k"
  shows "xs ! q \<in> set (take k xs @ drop (Suc k) xs)"
proof (cases "q < k")
  case True
  then have "take k xs ! q = xs ! q" and "q < length (take k xs)"
    using assms(1) by simp_all
  then have "xs ! q \<in> set (take k xs)"
    by (metis nth_mem)
  then show ?thesis by simp
next
  case False
  then have "Suc k \<le> q"
    using assms(2) by simp
  then have "drop (Suc k) xs ! (q - Suc k) = xs ! q" and "q - Suc k < length (drop (Suc k) xs)"
    using assms(1) by simp_all
  then have "xs ! q \<in> set (drop (Suc k) xs)"
    by (metis nth_mem)
  then show ?thesis by simp
qed

lemma pendingEntry_Some:
  "pendingEntry c idv = Some (k, p) \<Longrightarrow> pendingRequests c k = Some p"
  by (auto simp: pendingEntry_def split: option.splits json.splits if_splits)

lemma clientInv_new: "clientInv [] (fst (newClient conn)) (snd (newClient conn))"
  by (simp add: clientInv_def newClient_def outcomes_def)

lemma clientInv_buffer: "clientInv ms (c\<lparr>buffer := b\<rparr>) r = clientInv ms c r"
  by (simp add: clientInv_def)

lemma clientInv_handleLine:
  assumes "clientInv ms c r" and "handleLine parse line (c, r) = (c', r')"
  shows "clientInv ms c' r'"
proof (cases "parse line")
  case None
  then have "c' = c" "r' = r\<lparr>effects := effects r @ [LogParseError line]\<rparr>"
    using assms(2) by (simp_all add: handleLine_def)
  then show ?thesis
    using assms(1) by (simp add: clientInv_def outcomes_def)
next
  case (Some message)
  show ?thesis
  proof (cases "message = JNull")
    case True
    then have "c' = c"
      "r' = r\<lparr>effects := effects r @ [LogResponse message, LogParseError line]\<rparr>"
      using assms(2) Some by (simp_all add: handleLine_def)
    then show ?thesis
      using assms(1) by (simp add: clientInv_def outcomes_def)
  next
    case False
    show ?thesis
    proof (cases "pendingEntry c (getProp message ''id'')")
      case None
      then have "c' = c" "r' = r\<lparr>effects := effects r @ [LogResponse message]\<rparr>"
        using assms(2) Some False by (simp_all add: handleLine_def)
      then show ?thesis
        using assms(1) by (simp add: clientInv_def outcomes_def)
    next
      case (Some kp)
      obtain k p where kp: "kp = (k, p)"
        by (cases kp)
      have e: "pendingRequests c k = Some p"
        using Some kp pendingEntry_Some by blast
      then have pk: "p = k"
        using assms(1) by (simp add: clientInv_def)
      have c': "c' = c\<lparr>pendingRequests := (pendingRequests c)(k := None)\<rparr>"
        and r': "r' = r\<lparr>effects := effects r @ [LogResponse message, settle k message]\<rparr>"
        using assms(2) \<open>parse line = Some message\<close> False Some kp pk
        by (simp_all add: handleLine_def)
      show ?thesis
        using assms(1) e pk unfolding c' r'
        by (auto simp: clientInv_def outcomes_def outcomeOf_settle settle_not_timeout
            timeout_not_settle)
    qed
  qed
qed

lemma clientInv_handleLines:
  assumes "clientInv ms c r" and "handleLines parse ls (c, r) = (c', r')"
  shows "clientInv ms c' r'"
  using assms
proof (induction ls arbitrary: c r)
  case Nil
  then show ?case by simp
next
  case (Cons l ls)
  obtain c1 r1 where h: "handleLine parse l (c, r) = (c1, r1)"
    by (cases "handleLine parse l (c, r)")
  have "clientInv ms c1 r1"
    using clientInv_handleLine [OF Cons.prems(1) h] .
  then show ?case
    using Cons h by (auto split: if_splits)
qed

lemma clientInv_onData:
  assumes "clientInv ms c r" and "onData parse chunk (c, r) = (c', r')"
  shows "clientInv ms c' r'"
proof -
  have "clientInv ms (c\<lparr>buffer := last (splitLines (buffer c @ chunk))\<rparr>) r"
    using assms(1) by (simp add: clientInv_buffer)
  then show ?thesis
    using assms(2) clientInv_handleLines
    by (simp add: onData_def processBuffer_def Let_def)
qed

lemma clientInv_fireTimer:
  assumes "clientInv ms c r" and "fireTimer k (c, r) = (c', r')"
  shows "clientInv ms c' r'"
proof (cases "k < length (timers r)")
  case False
  then show ?thesis
    using assms by (simp add: fireTimer_def)
next
  case True
  obtain i m where t: "timers r ! k = (i, m)"
    by (cases "timers r ! k")
  have mem: "(i, m) \<in> set (timers r)"
    using True t by (metis nth_mem)
  let ?ts = "take k (timers r) @ drop (Suc k) (timers r)"
  have sub: "set ?ts \<subseteq> set (timers r)"
    using set_take_subset [of k "timers r"] set_drop_subset [of "Suc k" "timers r"] by auto
  have keep: "j \<in> fst ` set ?ts" if "j \<in> fst ` set (timers r)" "j \<noteq> i" for j
  proof -
    from that(1) obtain q where q: "q < length (timers r)" "fst (timers r ! q) = j"
      by (auto simp: in_set_conv_nth)
    then have "q \<noteq> k"
      using t that(2) by auto
    then have "timers r ! q \<in> set ?ts"
      using q(1) by (intro nth_in_remove_nth)
    then show ?thesis
      using q(2) by force
  qed
  have inv: "messageId c = length ms"
    "\<And>j p. pendingRequests c j = Some p \<Longrightarrow>
       p = j \<and> 1 \<le> j \<and> j \<le> length ms \<and> j \<in> fst ` set (timers r)"
    "\<And>j. length (outcomes j r) =
       (if 1 \<le> j \<and> j \<le> length ms \<and> pendingRequests c j = None then 1 else 0)"
    "\<And>j n. (j, n) \<in> set (timers r) \<Longrightarrow> 1 \<le> j \<and> j \<le> length ms \<and> ms ! (j - 1) = n"
    "\<And>j n. Reject j (RequestTimeout n) \<in> set (effects r) \<Longrightarrow>
       1 \<le> j \<and> j \<le> length ms \<and> ms ! (j - 1) = n"
    using assms(1) unfolding clientInv_def by blast+
  have rng: "1 \<le> i" "i \<le> length ms" "ms ! (i - 1) = m"
    using inv(4) [OF mem] by simp_all
  have tm: "\<And>j n. (j, n) \<in> set ?ts \<Longrightarrow> 1 \<le> j \<and> j \<le> length ms \<and> ms ! (j - 1) = n"
    using inv(4) sub by blast
  show ?thesis
  proof (cases "pendingRequests c i")
    case None
    then have c': "c' = c" and r': "r' = r\<lparr>timers := ?ts\<rparr>"
      using assms(2) True t by (simp_all add: fireTimer_def)
    have pe: "\<And>j p. pendingRequests c j = Some p \<Longrightarrow>
       p = j \<and> 1 \<le> j \<and> j \<le> length ms \<and> j \<in> fst ` set ?ts"
    proof -
      fix j p assume a: "pendingRequests c j = Some p"
      then have "j \<noteq> i" using None by auto
      then show "p = j \<and> 1 \<le> j \<and> j \<le> length ms \<and> j \<in> fst ` set ?ts"
        using inv(2) [OF a] keep by blast
    qed
    show ?thesis
      unfolding c' r'
    proof (rule clientInvI)
      show "messageId c = length ms" by (rule inv(1))
    next
      fix j p assume "pendingRequests c j = Some p"
      then show "p = j \<and> 1 \<le> j \<and> j \<le> length ms \<and> j \<in> fst ` set (timers (r\<lparr>timers := ?ts\<rparr>))"
        using pe by simp
    next
      fix j show "length (outcomes j (r\<lparr>timers := ?ts\<rparr>)) =
         (if 1 \<le> j \<and> j \<le> length ms \<and> pendingRequests c j = None then 1 else 0)"
        using inv(3) [of j] by (simp add: outcomes_def)
    next
      fix j n assume "(j, n) \<in> set (timers (r\<lparr>timers := ?ts\<rparr>))"
      then have "(j, n) \<in> set ?ts" by simp
      then show "1 \<le> j \<and> j \<le> length ms \<and> ms ! (j - 1) = n"
        by (rule tm)
    next
      fix j n assume "Reject j (RequestTimeout n) \<in> set (effects (r\<lparr>timers := ?ts\<rparr>))"
      then have "Reject j (RequestTimeout n) \<in> set (effects r)" by simp
      then show "1 \<le> j \<and> j \<le> length ms \<and> ms ! (j - 1) = n"
        by (rule inv(5))
    qed
  next
    case (Some p)
    then have c': "c' = c\<lparr>pendingRequests := (pendingRequests c)(i := None)\<rparr>"
      and r': "r' = r\<lparr>timers := ?ts, effects := effects r @ [Reject i (RequestTimeout m)]\<rparr>"
      using assms(2) True t by (simp_all add: fireTimer_def)
    have pe: "\<And>j q. ((pendingRequests c)(i := None)) j = Some q \<Longrightarrow>
       q = j \<and> 1 \<le> j \<and> j \<le> length ms \<and> j \<in> fst ` set ?ts"
    proof -
      fix j q assume a: "((pendingRequests c)(i := None)) j = Some q"
      then have ji: "j \<noteq> i" and b: "pendingRequests c j = Some q"
        by (auto split: if_splits)
      show "q = j \<and> 1 \<le> j \<and> j \<le> length ms \<and> j \<in> fst ` set ?ts"
        using inv(2) [OF b] keep ji by blast
    qed
    have oc: "\<And>j. length (outcomes j (r\<lparr>timers := ?ts,
                  effects := effects r @ [Reject i (RequestTimeout m)]\<rparr>)) =
       (if 1 \<le> j \<and> j \<le> length ms \<and> ((pendingRequests c)(i := None)) j = None then 1 else 0)"
    proof -
      fix j
      show "length (outcomes j (r\<lparr>timers := ?ts,
                  effects := effects r @ [Reject i (RequestTimeout m)]\<rparr>)) =
       (if 1 \<le> j \<and> j \<le> length ms \<and> ((pendingRequests c)(i := None)) j = None then 1 else 0)"
      proof (cases "j = i")
        case True
        have "length (outcomes i r) = 0"
          using inv(3) [of i] Some by simp
        then show ?thesis
          using True rng by (simp add: outcomes_def)
      next
        case False
        then show ?thesis
          using inv(3) [of j] by (simp add: outcomes_def)
      qed
    qed
    have rj: "\<And>j n. Reject j (RequestTimeout n) \<in> set (effects r @ [Reject i (RequestTimeout m)]) \<Longrightarrow>
       1 \<le> j \<and> j \<le> length ms \<and> ms ! (j - 1) = n"
      using inv(5) rng by auto
    let ?r = "r\<lparr>timers := ?ts, effects := effects r @ [Reject i (RequestTimeout m)]\<rparr>"
    show ?thesis
      unfolding c' r'
    proof (rule clientInvI)
      show "messageId (c\<lparr>pendingRequests := (pendingRequests c)(i := None)\<rparr>) = length ms"
        using inv(1) by simp
    next
      fix j q
      assume "pendingRequests (c\<lparr>pendingRequests := (pendingRequests c)(i := None)\<rparr>) j = Some q"
      then have "((pendingRequests c)(i := None)) j = Some q" by simp
      from pe [OF this]
      show "q = j \<and> 1 \<le> j \<and> j \<le> length ms \<and> j \<in> fst ` set (timers ?r)"
        by simp
    next
      fix j show "length (outcomes j ?r) =
         (if 1 \<le> j \<and> j \<le> length ms \<and>
             pendingRequests (c\<lparr>pendingRequests := (pendingRequests c)(i := None)\<rparr>) j = None
          then 1 else 0)"
        using oc [of j] by simp
    next
      fix j n assume "(j, n) \<in> set (timers ?r)"
      then have "(j, n) \<in> set ?ts" by simp
      then show "1 \<le> j \<and> j \<le> length ms \<and> ms ! (j - 1) = n"
        by (rule tm)
    next
      fix j n assume "Reject j (RequestTimeout n) \<in> set (effects ?r)"
      then have "Reject j (RequestTimeout n) \<in> set (effects r @ [Reject i (RequestTimeout m)])"
        by simp
      then show "1 \<le> j \<and> j \<le> length ms \<and> ms ! (j - 1) = n"
        by (rule rj)
    qed
  qed
qed

lemma clientInv_sendRequest:
  assumes "clientInv ms c r" and "sendRequest m p (c, r) = (c', r')"
  shows "clientInv (ms @ [m]) c' r'"
proof -
  have inv: "messageId c = length ms"
    "\<And>j p. pendingRequests c j = Some p \<Longrightarrow>
       p = j \<and> 1 \<le> j \<and> j \<le> length ms \<and> j \<in> fst ` set (timers r)"
    "\<And>j. length (outcomes j r) =
       (if 1 \<le> j \<and> j \<le> length ms \<and> pendingRequests c j = None then 1 else 0)"
    "\<And>j n. (j, n) \<in> set (timers r) \<Longrightarrow> 1 \<le> j \<and> j \<le> length ms \<and> ms ! (j - 1) = n"
    "\<And>j n. Reject j (RequestTimeout n) \<in> set (effects r) \<Longrightarrow>
       1 \<le> j \<and> j \<le> length ms \<and> ms ! (j - 1) = n"
    using assms(1) unfolding clientInv_def by blast+
  let ?i = "Suc (length ms)"
  let ?es = "LogRequest m #
      (if connected c then [StdinWrite \<lparr>req_id = ?i, req_method = m, req_params = p\<rparr>] else [])"
  have c': "c' = c\<lparr>messageId := ?i, pendingRequests := (pendingRequests c)(?i \<mapsto> ?i)\<rparr>"
    and r': "r' = r\<lparr>timers := timers r @ [(?i, m)], effects := effects r @ ?es\<rparr>"
    using assms(2) inv(1) by (auto simp: sendRequest_def Let_def)
  have fresh: "pendingRequests c ?i = None"
    using inv(2) [of ?i] by (cases "pendingRequests c ?i") auto
  have nth: "(ms @ [m]) ! (j - 1) = ms ! (j - 1)" if "1 \<le> j" "j \<le> length ms" for j
  proof -
    have "j - 1 < length ms" using that by arith
    then show ?thesis by (simp add: nth_append)
  qed
  show ?thesis
    unfolding c' r'
  proof (rule clientInvI)
    show "messageId (c\<lparr>messageId := ?i, pendingRequests := (pendingRequests c)(?i \<mapsto> ?i)\<rparr>)
            = length (ms @ [m])"
      by simp
  next
    fix j q
    assume "pendingRequests (c\<lparr>messageId := ?i,
               pendingRequests := (pendingRequests c)(?i \<mapsto> ?i)\<rparr>) j = Some q"
    then have a: "((pendingRequests c)(?i \<mapsto> ?i)) j = Some q" by simp
    show "q = j \<and> 1 \<le> j \<and> j \<le> length (ms @ [m]) \<and>
          j \<in> fst ` set (timers (r\<lparr>timers := timers r @ [(?i, m)], effects := effects r @ ?es\<rparr>))"
    proof (cases "j = ?i")
      case True
      then show ?thesis using a by simp
    next
      case False
      then have "pendingRequests c j = Some q" using a by simp
      from inv(2) [OF this] show ?thesis by auto
    qed
  next
    fix j
    have o: "outcomes j (r\<lparr>timers := timers r @ [(?i, m)], effects := effects r @ ?es\<rparr>)
               = outcomes j r"
      by (simp add: outcomes_def)
    show "length (outcomes j (r\<lparr>timers := timers r @ [(?i, m)], effects := effects r @ ?es\<rparr>)) =
         (if 1 \<le> j \<and> j \<le> length (ms @ [m]) \<and>
             pendingRequests (c\<lparr>messageId := ?i,
               pendingRequests := (pendingRequests c)(?i \<mapsto> ?i)\<rparr>) j = None
          then 1 else 0)"
    proof (cases "j = ?i")
      case True
      then show ?thesis using inv(3) [of j] by (simp add: outcomes_def)
    next
      case False
      then show ?thesis using inv(3) [of j] by (auto simp: outcomes_def)
    qed
  next
    fix j n
    assume "(j, n) \<in> set (timers (r\<lparr>timers := timers r @ [(?i, m)], effects := effects r @ ?es\<rparr>))"
    then have "(j, n) \<in> set (timers r) \<or> (j = ?i \<and> n = m)" by auto
    then show "1 \<le> j \<and> j \<le> length (ms @ [m]) \<and> (ms @ [m]) ! (j - 1) = n"
    proof
      assume "(j, n) \<in> set (timers r)"
      from inv(4) [OF this] show ?thesis using nth [of j] by simp
    next
      assume "j = ?i \<and> n = m"
      then show ?thesis by simp
    qed
  next
    fix j n
    assume "Reject j (RequestTimeout n)
              \<in> set (effects (r\<lparr>timers := timers r @ [(?i, m)], effects := effects r @ ?es\<rparr>))"
    then have "Reject j (RequestTimeout n) \<in> set (effects r)" by (auto split: if_splits)
    from inv(5) [OF this]
    show "1 \<le> j \<and> j \<le> length (ms @ [m]) \<and> (ms @ [m]) ! (j - 1) = n"
      using nth [of j] by simp
  qed
qed

lemma sentMethods_Cons:
  "sentMethods (e # es) = (case e of Send m p \<Rightarrow> [m] | _ \<Rightarrow> []) @ sentMethods es"
  by (simp add: sentMethods_def List.map_filter_def split: event.splits)

lemma clientInv_run:
  assumes "clientInv ms c r" and "run parse evs (c, r) = (c', r')"
  shows "clientInv (ms @ sentMethods evs) c' r'"
  using assms
proof (induction evs arbitrary: ms c r)
  case Nil
  then show ?case by (simp add: sentMethods_def List.map_filter_def)
next
  case (Cons e es)
  obtain c1 r1 where s: "step parse e (c, r) = (c1, r1)"
    by (cases "step parse e (c, r)")
  have r: "run parse es (c1, r1) = (c', r')"
    using Cons.prems(2) s by simp
  show ?case
  proof (cases e)
    case (Send m p)
    then have "clientInv (ms @ [m]) c1 r1"
      using clientInv_sendRequest [OF Cons.prems(1)] s by simp
    from Cons.IH [OF this r] show ?thesis
      by (simp add: sentMethods_Cons Send)
  next
    case (Data chunk)
    then have "clientInv ms c1 r1"
      using clientInv_onData [OF Cons.prems(1)] s by simp
    from Cons.IH [OF this r] show ?thesis
      by (simp add: sentMethods_Cons Data)
  next
    case (Fire k)
    then have "clientInv ms c1 r1"
      using clientInv_fireTimer [OF Cons.prems(1)] s by simp
    from Cons.IH [OF this r] show ?thesis
      by (simp add: sentMethods_Cons Fire)
  qed
qed

lemma run_append: "run parse (xs @ ys) cr = run parse ys (run parse xs cr)"
  by (induction xs arbitrary: cr) simp_all

lemma sentMethods_append: "sentMethods (xs @ ys) = sentMethods xs @ sentMethods ys"
  by (simp add: sentMethods_def List.map_filter_def)

lemma sentMethods_fires: "sentMethods (replicate n (Fire k)) = []"
  by (induction n) (simp_all add: sentMethods_def List.map_filter_def)

lemma fireTimer_length:
  "k < length (timers (snd cr)) \<Longrightarrow>
     length (timers (snd (fireTimer k cr))) = length (timers (snd cr)) - 1"
  by (cases cr) (auto simp: fireTimer_def Let_def split: prod.splits)

lemma run_fire_all:
  "length (timers (snd cr)) = n \<Longrightarrow> timers (snd (run parse (replicate n (Fire 0)) cr)) = []"
proof (induction n arbitrary: cr)
  case 0
  then show ?case by simp
next
  case (Suc n)
  have "length (timers (snd (fireTimer 0 cr))) = n"
    using fireTimer_length [of 0 cr] Suc.prems by simp
  from Suc.IH [OF this] show ?case by simp
qed

lemma pendingEntry_key:
  "pendingEntry c (Some (JNum (int i))) = map_option (\<lambda>p. (i, p)) (pendingRequests c i)"
  by (simp add: pendingEntry_def)

text \<open>
  Claim C1.  In every state the client reaches from a new one by calls of \<open>sendRequest\<close>,
  chunks of output and timers that fire, in any order and with any parser: the ids issued are
  \<open>1, \<dots>, messageId\<close>, one per request; the promise of an id has had exactly one outcome
  if the id was issued and its entry has left the pending table, and none otherwise, so never
  two; an entry still in the table is the pair of its own promise and its timer is still
  armed, so the outcome cannot stay away: once no timer is armed, and in particular after
  all the armed timers have fired, every id issued has had exactly one outcome.  An outcome
  is a resolution, a rejection with the text of the remote error (its \<open>message\<close>, or the
  error stringified when it has none) or a rejection with the timeout text that names the
  method of that very request.  Whichever of the timer and the response finds the entry
  removes it and delivers the outcome; the one that comes after finds no entry and delivers
  nothing: the timer only leaves the armed timers, the response is only logged.
\<close>

theorem exactly_one_outcome:
  assumes reach: "run parse evs (newClient conn) = (c, r)"
  shows
   "messageId c = length (sentMethods evs) \<and>
    (\<forall>i. length (outcomes i r) =
       (if 1 \<le> i \<and> i \<le> messageId c \<and> pendingRequests c i = None then 1 else 0)) \<and>
    (\<forall>i p. pendingRequests c i = Some p \<longrightarrow>
       p = i \<and> 1 \<le> i \<and> i \<le> messageId c \<and> i \<in> fst ` set (timers r)) \<and>
    (timers r = [] \<longrightarrow> (\<forall>i. 1 \<le> i \<and> i \<le> messageId c \<longrightarrow> length (outcomes i r) = 1)) \<and>
    (\<forall>i. 1 \<le> i \<and> i \<le> messageId c \<longrightarrow>
       length (outcomes i (snd (run parse (replicate (length (timers r)) (Fire 0)) (c, r)))) = 1) \<and>
    (\<forall>i e. e \<in> set (outcomes i r) \<longrightarrow>
       (\<exists>v. e = Resolve i v) \<or> (\<exists>x. e = Reject i (RemoteMessage x)) \<or>
       (\<exists>x. e = Reject i (RemoteStringified x)) \<or>
       e = Reject i (RequestTimeout (sentMethods evs ! (i - 1)))) \<and>
    (\<forall>k i m. k < length (timers r) \<and> timers r ! k = (i, m) \<longrightarrow>
       m = sentMethods evs ! (i - 1) \<and>
       fireTimer k (c, r) =
         (if pendingRequests c i = None
          then (c, r\<lparr>timers := take k (timers r) @ drop (Suc k) (timers r)\<rparr>)
          else (c\<lparr>pendingRequests := (pendingRequests c)(i := None)\<rparr>,
                r\<lparr>timers := take k (timers r) @ drop (Suc k) (timers r),
                  effects := effects r @ [Reject i (RequestTimeout m)]\<rparr>))) \<and>
    (\<forall>line msg i. parse line = Some msg \<and> msg \<noteq> JNull \<and>
         getProp msg ''id'' = Some (JNum (int i)) \<longrightarrow>
       handleLine parse line (c, r) =
         (if pendingRequests c i = None
          then (c, r\<lparr>effects := effects r @ [LogResponse msg]\<rparr>)
          else (c\<lparr>pendingRequests := (pendingRequests c)(i := None)\<rparr>,
                r\<lparr>effects := effects r @ [LogResponse msg, settle i msg]\<rparr>))) \<and>
    (\<forall>p msg. settle p msg =
       (if truthy (getProp msg ''error'')
        then (if truthy (getProp (the (getProp msg ''error'')) ''message'')
              then Reject p (RemoteMessage (the (getProp (the (getProp msg ''error'')) ''message'')))
              else Reject p (RemoteStringified (the (getProp msg ''error''))))
        else Resolve p (getProp msg ''result'')))"
proof -
  have I: "clientInv (sentMethods evs) c r"
    using clientInv_run [of "[]" "fst (newClient conn)" "snd (newClient conn)" parse evs c r]
      clientInv_new [of conn] reach by simp
  have inv: "messageId c = length (sentMethods evs)"
    "\<And>j p. pendingRequests c j = Some p \<Longrightarrow>
       p = j \<and> 1 \<le> j \<and> j \<le> length (sentMethods evs) \<and> j \<in> fst ` set (timers r)"
    "\<And>j. length (outcomes j r) =
       (if 1 \<le> j \<and> j \<le> length (sentMethods evs) \<and> pendingRequests c j = None then 1 else 0)"
    "\<And>j n. (j, n) \<in> set (timers r) \<Longrightarrow>
       1 \<le> j \<and> j \<le> length (sentMethods evs) \<and> sentMethods evs ! (j - 1) = n"
    "\<And>j n. Reject j (RequestTimeout n) \<in> set (effects r) \<Longrightarrow>
       1 \<le> j \<and> j \<le> length (sentMethods evs) \<and> sentMethods evs ! (j - 1) = n"
    using I unfolding clientInv_def by blast+
  have 1: "\<forall>i. length (outcomes i r) =
       (if 1 \<le> i \<and> i \<le> messageId c \<and> pendingRequests c i = None then 1 else 0)"
    using inv(3) by (simp add: inv(1))
  have 2: "\<forall>i p. pendingRequests c i = Some p \<longrightarrow>
       p = i \<and> 1 \<le> i \<and> i \<le> messageId c \<and> i \<in> fst ` set (timers r)"
    using inv(2) unfolding inv(1) by blast
  have 3: "timers r = [] \<longrightarrow> (\<forall>i. 1 \<le> i \<and> i \<le> messageId c \<longrightarrow> length (outcomes i r) = 1)"
  proof (intro impI allI)
    fix i assume t: "timers r = []" and i: "1 \<le> i \<and> i \<le> messageId c"
    have "pendingRequests c i = None"
    proof (cases "pendingRequests c i")
      case (Some p)
      from inv(2) [OF this] t show ?thesis by simp
    qed simp
    then show "length (outcomes i r) = 1"
      using inv(3) [of i] i by (simp add: inv(1))
  qed
  have fired: "\<forall>i. 1 \<le> i \<and> i \<le> messageId c \<longrightarrow>
       length (outcomes i (snd (run parse (replicate (length (timers r)) (Fire 0)) (c, r)))) = 1"
  proof (intro allI impI)
    fix i assume i: "1 \<le> i \<and> i \<le> messageId c"
    let ?fs = "replicate (length (timers r)) (Fire 0)"
    obtain c' r' where f: "run parse ?fs (c, r) = (c', r')"
      by (cases "run parse ?fs (c, r)")
    have J: "clientInv (sentMethods evs) c' r'"
      using clientInv_run [OF I f] by (simp add: sentMethods_fires)
    have t: "timers r' = []"
      using run_fire_all [of "(c, r)" "length (timers r)" parse] f by simp
    have "pendingRequests c' i = None"
    proof (cases "pendingRequests c' i")
      case (Some p)
      then have "i \<in> fst ` set (timers r')"
        using J unfolding clientInv_def by blast
      then show ?thesis using t by simp
    qed simp
    moreover have "length (outcomes i r') =
       (if 1 \<le> i \<and> i \<le> length (sentMethods evs) \<and> pendingRequests c' i = None then 1 else 0)"
      using J unfolding clientInv_def by blast
    ultimately show "length (outcomes i (snd (run parse ?fs (c, r)))) = 1"
      using i f by (simp add: inv(1))
  qed
  have 4: "\<forall>i e. e \<in> set (outcomes i r) \<longrightarrow>
       (\<exists>v. e = Resolve i v) \<or> (\<exists>x. e = Reject i (RemoteMessage x)) \<or>
       (\<exists>x. e = Reject i (RemoteStringified x)) \<or>
       e = Reject i (RequestTimeout (sentMethods evs ! (i - 1)))"
  proof (intro allI impI)
    fix i e assume "e \<in> set (outcomes i r)"
    then have e: "e \<in> set (effects r)" and o: "outcomeOf i e"
      by (simp_all add: outcomes_def)
    show "(\<exists>v. e = Resolve i v) \<or> (\<exists>x. e = Reject i (RemoteMessage x)) \<or>
       (\<exists>x. e = Reject i (RemoteStringified x)) \<or>
       e = Reject i (RequestTimeout (sentMethods evs ! (i - 1)))"
    proof (cases e)
      case (Resolve p v)
      then show ?thesis using o by simp
    next
      case (Reject p x)
      then have p: "p = i" using o by simp
      show ?thesis
      proof (cases x)
        case (RequestTimeout n)
        then have "Reject i (RequestTimeout n) \<in> set (effects r)"
          using e Reject p by simp
        from inv(5) [OF this] show ?thesis
          using Reject p RequestTimeout by simp
      qed (simp_all add: Reject p)
    qed (use o in simp_all)
  qed
  have 5: "\<forall>k i m. k < length (timers r) \<and> timers r ! k = (i, m) \<longrightarrow>
       m = sentMethods evs ! (i - 1) \<and>
       fireTimer k (c, r) =
         (if pendingRequests c i = None
          then (c, r\<lparr>timers := take k (timers r) @ drop (Suc k) (timers r)\<rparr>)
          else (c\<lparr>pendingRequests := (pendingRequests c)(i := None)\<rparr>,
                r\<lparr>timers := take k (timers r) @ drop (Suc k) (timers r),
                  effects := effects r @ [Reject i (RequestTimeout m)]\<rparr>))"
  proof (intro allI impI)
    fix k i m assume a: "k < length (timers r) \<and> timers r ! k = (i, m)"
    then have "(i, m) \<in> set (timers r)"
      by (metis nth_mem)
    from inv(4) [OF this] have m: "m = sentMethods evs ! (i - 1)" by simp
    have "fireTimer k (c, r) =
         (if pendingRequests c i = None
          then (c, r\<lparr>timers := take k (timers r) @ drop (Suc k) (timers r)\<rparr>)
          else (c\<lparr>pendingRequests := (pendingRequests c)(i := None)\<rparr>,
                r\<lparr>timers := take k (timers r) @ drop (Suc k) (timers r),
                  effects := effects r @ [Reject i (RequestTimeout m)]\<rparr>))"
      using a by (simp add: fireTimer_def)
    then show "m = sentMethods evs ! (i - 1) \<and>
       fireTimer k (c, r) =
         (if pendingRequests c i = None
          then (c, r\<lparr>timers := take k (timers r) @ drop (Suc k) (timers r)\<rparr>)
          else (c\<lparr>pendingRequests := (pendingRequests c)(i := None)\<rparr>,
                r\<lparr>timers := take k (timers r) @ drop (Suc k) (timers r),
                  effects := effects r @ [Reject i (RequestTimeout m)]\<rparr>))"
      using m by simp
  qed
  have 6: "\<forall>line msg i. parse line = Some msg \<and> msg \<noteq> JNull \<and>
         getProp msg ''id'' = Some (JNum (int i)) \<longrightarrow>
       handleLine parse line (c, r) =
         (if pendingRequests c i = None
          then (c, r\<lparr>effects := effects r @ [LogResponse msg]\<rparr>)
          else (c\<lparr>pendingRequests := (pendingRequests c)(i := None)\<rparr>,
                r\<lparr>effects := effects r @ [LogResponse msg, settle i msg]\<rparr>))"
  proof (intro allI impI)
    fix line msg i
    assume a: "parse line = Some msg \<and> msg \<noteq> JNull \<and> getProp msg ''id'' = Some (JNum (int i))"
    show "handleLine parse line (c, r) =
         (if pendingRequests c i = None
          then (c, r\<lparr>effects := effects r @ [LogResponse msg]\<rparr>)
          else (c\<lparr>pendingRequests := (pendingRequests c)(i := None)\<rparr>,
                r\<lparr>effects := effects r @ [LogResponse msg, settle i msg]\<rparr>))"
    proof (cases "pendingRequests c i")
      case None
      then show ?thesis
        using a by (simp add: handleLine_def pendingEntry_key)
    next
      case (Some p)
      from inv(2) [OF this] have "p = i" by simp
      then show ?thesis
        using a Some by (simp add: handleLine_def pendingEntry_key)
    qed
  qed
  have 7: "\<forall>p msg. settle p msg =
       (if truthy (getProp msg ''error'')
        then (if truthy (getProp (the (getProp msg ''error'')) ''message'')
              then Reject p (RemoteMessage (the (getProp (the (getProp msg ''error'')) ''message'')))
              else Reject p (RemoteStringified (the (getProp msg ''error''))))
        else Resolve p (getProp msg ''result''))"
    by (auto simp: settle_def split: option.splits)
  show ?thesis
    using inv(1) 1 2 3 fired 4 5 6 7 by (intro conjI)
qed

lemma exampleSession_run:
  "run exampleParse exampleSession (newClient True) =
     (\<lparr>connected = True, messageId = 2, pendingRequests = Map.empty, buffer = []\<rparr>,
      \<lparr>timers = [],
       effects = [LogRequest ''tools/list'',
                  StdinWrite \<lparr>req_id = 1, req_method = ''tools/list'', req_params = None\<rparr>,
                  LogResponse responseMessage,
                  Resolve 1 (Some (JNum 5)),
                  LogRequest ''tools/call'',
                  StdinWrite \<lparr>req_id = 2, req_method = ''tools/call'', req_params = None\<rparr>,
                  Reject 2 (RequestTimeout ''tools/call'')]\<rparr>)"
proof -
  let ?c1 = "\<lparr>connected = True, messageId = 1, pendingRequests = [1 \<mapsto> 1], buffer = []\<rparr>"
  let ?e1 = "[LogRequest ''tools/list'',
              StdinWrite \<lparr>req_id = 1, req_method = ''tools/list'', req_params = None\<rparr>]"
  let ?r1 = "\<lparr>timers = [(1, ''tools/list'')], effects = ?e1\<rparr>"
  have s1: "sendRequest ''tools/list'' None (newClient True) = (?c1, ?r1)"
    by (simp add: sendRequest_def newClient_def Let_def)
  have n: "newline \<notin> set (responseHead @ responseTail)"
    by (simp add: responseHead_def responseTail_def newline_def)
  have t: "trimmedNonEmpty (responseHead @ responseTail)"
    by (simp add: trimmedNonEmpty_def responseHead_def isWhiteSpace_def)
  have p: "exampleParse (responseHead @ responseTail) = Some responseMessage"
    by (simp add: exampleParse_def)
  have g: "getProp responseMessage ''id'' = Some (JNum 1)"
    "getProp responseMessage ''error'' = None"
    "getProp responseMessage ''result'' = Some (JNum 5)"
    "responseMessage \<noteq> JNull"
    by (simp_all add: responseMessage_def)
  let ?c2 = "\<lparr>connected = True, messageId = 1, pendingRequests = Map.empty, buffer = []\<rparr>"
  let ?r2 = "\<lparr>timers = [(1, ''tools/list'')],
             effects = ?e1 @ [LogResponse responseMessage, Resolve 1 (Some (JNum 5))]\<rparr>"
  have h: "handleLine exampleParse (responseHead @ responseTail) (?c1, ?r1) = (?c2, ?r2)"
    by (simp add: handleLine_def p g pendingEntry_def settle_def Let_def)
  have sp: "splitLines ((responseHead @ responseTail) @ [newline]) = [responseHead @ responseTail, []]"
    using splitLines_one_line [OF n] by simp
  have d: "onData exampleParse (responseTail @ [newline]) (onData exampleParse responseHead (?c1, ?r1))
             = (?c2, ?r2)"
    unfolding onData_chunks
    by (simp add: onData_eq sp [simplified] t h [simplified])
  let ?c3 = "\<lparr>connected = True, messageId = 2, pendingRequests = [2 \<mapsto> 2], buffer = []\<rparr>"
  let ?r3 = "\<lparr>timers = [(1, ''tools/list''), (2, ''tools/call'')],
             effects = ?e1 @ [LogResponse responseMessage, Resolve 1 (Some (JNum 5)),
               LogRequest ''tools/call'',
               StdinWrite \<lparr>req_id = 2, req_method = ''tools/call'', req_params = None\<rparr>]\<rparr>"
  have two: "Suc (Suc 0) = 2"
    by simp
  have s2: "sendRequest ''tools/call'' None (?c2, ?r2) = (?c3, ?r3)"
    by (simp add: sendRequest_def Let_def two)
  let ?r4 = "\<lparr>timers = [(2, ''tools/call'')], effects = effects ?r3\<rparr>"
  have f1: "fireTimer 0 (?c3, ?r3) = (?c3, ?r4)"
    by (simp add: fireTimer_def Let_def)
  have f2: "fireTimer 0 (?c3, ?r4) =
              (?c2\<lparr>messageId := 2\<rparr>,
               \<lparr>timers = [], effects = effects ?r3 @ [Reject 2 (RequestTimeout ''tools/call'')]\<rparr>)"
    by (simp add: fireTimer_def Let_def)
  show ?thesis
    unfolding exampleSession_def run.simps step.simps s1 d s2 f1 f2 by simp
qed

theorem exactly_one_outcome_witness:
  "run exampleParse exampleSession (newClient True) =
     (fst (run exampleParse exampleSession (newClient True)),
      snd (run exampleParse exampleSession (newClient True))) \<and>
   sentMethods exampleSession = [''tools/list'', ''tools/call''] \<and>
   messageId (fst (run exampleParse exampleSession (newClient True))) = 2 \<and>
   timers (snd (run exampleParse exampleSession (newClient True))) = [] \<and>
   length (outcomes 1 (snd (run exampleParse exampleSession (newClient True)))) = 1 \<and>
   length (outcomes 2 (snd (run exampleParse exampleSession (newClient True)))) = 1 \<and>
   outcomes 1 (snd (run exampleParse exampleSession (newClient True))) = [Resolve 1 (Some (JNum 5))] \<and>
   outcomes 2 (snd (run exampleParse exampleSession (newClient True)))
     = [Reject 2 (RequestTimeout ''tools/call'')]"
proof -
  let ?R = "run exampleParse exampleSession (newClient True)"
  have reach: "?R = (fst ?R, snd ?R)"
    by simp
  have ms: "sentMethods exampleSession = [''tools/list'', ''tools/call'']"
    by (simp add: sentMethods_def exampleSession_def List.map_filter_def)
  note T = exactly_one_outcome [of exampleParse exampleSession True "fst ?R" "snd ?R", OF reach]
  have m: "messageId (fst ?R) = 2"
    using T [THEN conjunct1] by (simp add: ms)
  have t: "timers (snd ?R) = []"
    by (simp add: exampleSession_run)
  note L = T [THEN conjunct2, THEN conjunct2, THEN conjunct2, THEN conjunct1, rule_format, OF t]
  have l1: "length (outcomes 1 (snd ?R)) = 1"
    using L [of 1] by (simp add: m)
  have l2: "length (outcomes 2 (snd ?R)) = 1"
    using L [of 2] by (simp add: m)
  have o1: "outcomes 1 (snd ?R) = [Resolve 1 (Some (JNum 5))]"
    by (simp add: exampleSession_run outcomes_def)
  have o2: "outcomes 2 (snd ?R) = [Reject 2 (RequestTimeout ''tools/call'')]"
    by (simp add: exampleSession_run outcomes_def)
  show ?thesis
    by (intro conjI) (rule reach ms m t l1 l2 o1 o2)+
qed

end
